theory Spec2Isabelle
  imports Main "HOL-Library.Multiset" "HOL-Library.AList"
begin

text \<open>
  The bulk SMS dispatch of the repository: \<open>sendSms\<close> resolves the recipients of a
  request, checks the prepaid balance of the client, sends through the gateway, debits
  the balance and records a history row inside one storage transaction. The sources hold
  three revisions of \<open>sendSms\<close>: \<open>src/unnamed/part_001\<close> sends to every recipient on
  its own, in batches; \<open>src/controllers/smsController.js\<close> and \<open>src/unnamed/part_002\<close>
  make one gateway call for all recipients. Each revision is a function from the
  environment (gateway, storage faults, clock), the request and the storage to the
  response, the storage afterwards, the gateway calls and pauses made, and the writes
  committed.

  One call runs alone on the storage: the transaction is a list of staged writes that
  the commit applies and a rollback drops. Every storage operation may throw; a throw
  reaches the \<open>catch\<close> of \<open>sendSms\<close>, which rolls back and answers with status 500.
  Within a batch the gateway calls are issued in the order of the batch and settle in
  the order of their latencies.
\<close>

section \<open>Data model\<close>

text \<open>
  The message of a request is a JavaScript string, a sequence of UTF-16 code units:
  \<open>trim\<close> looks at its characters, and every character it strips is one code unit.
  Names, phone numbers, statuses and error messages are only passed along or compared
  as a whole, and are plain strings.
\<close>

type_synonym js_string = "nat list"

text \<open>
  The storage rows the controllers read and write. A contact row carries the columns
  the code uses (\<open>id\<close>, \<open>name\<close>, \<open>phone\<close>, \<open>clientId\<close>); the balance table maps a client
  to its \<open>totalSmsAvailable\<close>; a history row is what \<open>SmsHistory.create\<close> receives.
\<close>

record contact =
  c_id :: nat
  c_name :: string
  c_phone :: string
  c_clientId :: nat

record history_entry =
  hist_clientId :: nat
  hist_message :: js_string
  recipientCount :: nat
  smsUsed :: nat
  hist_status :: string
  createdAt :: nat

record db =
  contacts_tbl :: "contact list"
  balances_tbl :: "(nat \<times> int) list"
  history_tbl :: "history_entry list"

text \<open>
  The request as \<open>sendSms\<close> sees it: \<open>req.clientId\<close>, whether \<open>validationResult(req)\<close>
  is empty, and the body fields. \<open>message\<close> is \<open>None\<close> when it is missing or not a string,
  \<open>contactIds\<close> is \<open>None\<close> when it is missing or not an array.
\<close>

record request =
  req_clientId :: nat
  validationOk :: bool
  message :: "js_string option"
  contactIds :: "nat list option"
  sendToAll :: bool

text \<open>What \<open>axios.get\<close> does inside \<open>sendSMS\<close>: it resolves with a status or it throws.\<close>

datatype gateway_result = HttpStatus nat | TransportError string

text \<open>The value \<open>sendSMS\<close> returns: \<open>response.status\<close> (a number) or the caught error object.\<close>

datatype js_value = Number nat | ErrorObject string

text \<open>The storage operations that may throw; a throw reaches the \<open>catch\<close> of \<open>sendSms\<close>.\<close>

datatype step = CountContacts | FindContacts | FindBalance | DeductSms | CreateHistory | Commit

text \<open>
  Everything outside the controller: the gateway's answer to the \<open>k\<close>-th call of a
  request, the time that call takes to settle, \<open>addPrefixToPhoneNumber\<close> (not part of
  the sources; \<open>Inl\<close> is the message of an exception it throws), the storage operations
  that throw (with the error message) and the clock read by \<open>new Date()\<close>.
\<close>

record environment =
  gateway :: "nat \<Rightarrow> string \<Rightarrow> js_string \<Rightarrow> gateway_result"
  latency :: "nat \<Rightarrow> nat"
  addPrefixToPhoneNumber :: "string \<Rightarrow> string + string"
  faults :: "step \<Rightarrow> string option"
  now :: nat

text \<open>
  What a call of \<open>sendSms\<close> does to the outside, in the order it happens: a gateway
  request is issued (numbers and message), the \<open>k\<close>-th gateway request of the call has
  settled (the \<open>await\<close> on it returns), the loop pauses for some milliseconds.
\<close>

datatype event = GatewayCall string js_string | Settled nat | Sleep nat

record message_detail =
  contactId :: nat
  det_name :: string
  det_phone :: string
  det_status :: string
  det_error :: "string option"

datatype response =
    ValidationErrors
  | MessageRequired
  | ContactIdsRequired
  | MaximumExceeded nat
  | BalanceNotFound
  | ContactsMismatch
  | NoContactsFound
  | InsufficientBalance nat int
  | CompletedBatched nat nat nat nat int "message_detail list" "message_detail list"
  | CompletedBulk nat string js_value int
  | ServerError string

fun statusCode :: "response \<Rightarrow> nat" where
  "statusCode ValidationErrors = 400"
| "statusCode MessageRequired = 400"
| "statusCode ContactIdsRequired = 400"
| "statusCode (MaximumExceeded _) = 429"
| "statusCode BalanceNotFound = 404"
| "statusCode ContactsMismatch = 400"
| "statusCode NoContactsFound = 400"
| "statusCode (InsufficientBalance _ _) = 400"
| "statusCode (CompletedBatched _ _ _ _ _ _ _) = 200"
| "statusCode (CompletedBulk _ _ _ _) = 200"
| "statusCode (ServerError _) = 500"

text \<open>A write staged in the transaction; \<open>commit\<close> applies the staged writes in order.\<close>

datatype db_write = BalanceWrite nat int | HistoryWrite history_entry

fun apply_write :: "db \<Rightarrow> db_write \<Rightarrow> db" where
  "apply_write d (BalanceWrite c b) = d\<lparr>balances_tbl := AList.update c b (balances_tbl d)\<rparr>"
| "apply_write d (HistoryWrite h) = d\<lparr>history_tbl := history_tbl d @ [h]\<rparr>"

definition commit :: "db \<Rightarrow> db_write list \<Rightarrow> db" where
  "commit d ws = foldl apply_write d ws"

text \<open>
  What one call of \<open>sendSms\<close> leaves behind: the response, the storage after the call,
  the gateway calls, their settlements and the pauses in the order they happened, and
  the writes committed.
\<close>

record result =
  response :: response
  db_after :: db
  events :: "event list"
  committed :: "db_write list"

definition finish :: "db \<Rightarrow> event list \<Rightarrow> response \<Rightarrow> result" where
  "finish d evs r = \<lparr>response = r, db_after = d, events = evs, committed = []\<rparr>"

section \<open>Constants and helpers\<close>

definition MAX_SMS_PER_REQUEST :: nat where
  "MAX_SMS_PER_REQUEST = 100000"

definition BATCH_SIZE :: nat where
  "BATCH_SIZE = 1000"

text \<open>
  \<open>String.prototype.trim\<close> strips, at both ends, the code units of the white space
  and line terminator characters of ECMAScript: TAB, LF, VT, FF, CR, SPACE, U+00A0,
  U+1680, U+2000 to U+200A, U+2028, U+2029, U+202F, U+205F, U+3000 and U+FEFF.
\<close>

definition js_whitespace :: "nat \<Rightarrow> bool" where
  "js_whitespace c =
     (c \<in> set [0x09, 0x0A, 0x0B, 0x0C, 0x0D, 0x20, 0xA0, 0x1680, 0x2028, 0x2029, 0x202F,
               0x205F, 0x3000, 0xFEFF] \<or>
      (0x2000 \<le> c \<and> c \<le> 0x200A))"

definition js_trim :: "js_string \<Rightarrow> js_string" where
  "js_trim s = rev (dropWhile js_whitespace (rev (dropWhile js_whitespace s)))"

text \<open>\<open>Array.prototype.join(",")\<close>.\<close>

fun join_comma :: "string list \<Rightarrow> string" where
  "join_comma [] = []"
| "join_comma [x] = x"
| "join_comma (x # y # ys) = x @ '','' @ join_comma (y # ys)"

text \<open>
  \<open>sendSMS\<close> of \<open>send_sms.js\<close>: it returns \<open>response.status\<close>, or the error object it
  caught; it never throws. \<open>k\<close> is the number of gateway calls made before this one.
\<close>

definition sendSMS :: "environment \<Rightarrow> nat \<Rightarrow> string \<Rightarrow> js_string \<Rightarrow> js_value" where
  "sendSMS env k numbers msg =
     (case gateway env k numbers msg of
        HttpStatus s \<Rightarrow> Number s
      | TransportError e \<Rightarrow> ErrorObject e)"

text \<open>
  Reading the property \<open>success\<close> of what \<open>sendSMS\<close> returned, as a condition: neither a
  number nor an error object has that property, so the read is \<open>undefined\<close>, which is
  falsy. Reading \<open>error\<close> is \<open>undefined\<close> in the same way.
\<close>

fun js_success :: "js_value \<Rightarrow> bool" where
  "js_success (Number _) = False"
| "js_success (ErrorObject _) = False"

fun js_error_field :: "js_value \<Rightarrow> string option" where
  "js_error_field (Number _) = None"
| "js_error_field (ErrorObject _) = None"

text \<open>
  Modelled from the spec: the methods \<open>hasEnoughBalance\<close> and \<open>deductSms\<close> of the
  \<open>SmsBalance\<close> model, whose file is not among the sources. The spec gives the ledger as
  \<open>hasSufficientCredit(accountId, n) -> bool\<close> and \<open>debit(accountId, n) -> new balance\<close>
  with a balance that never goes negative: the check compares the count with
  \<open>totalSmsAvailable\<close>, and the debit subtracts the count, refusing (an exception) a count
  above the balance.
\<close>

definition hasEnoughBalance :: "int \<Rightarrow> nat \<Rightarrow> bool" where
  "hasEnoughBalance totalSmsAvailable n = (int n \<le> totalSmsAvailable)"

definition deductSms :: "int \<Rightarrow> nat \<Rightarrow> string + int" where
  "deductSms totalSmsAvailable n =
     (if totalSmsAvailable < int n then Inl ''Insufficient SMS balance''
      else Inr (totalSmsAvailable - int n))"

text \<open>The three queries on the contact table.\<close>

definition findAll_client :: "db \<Rightarrow> nat \<Rightarrow> contact list" where
  "findAll_client d cid = filter (\<lambda>c. c_clientId c = cid) (contacts_tbl d)"

definition findAll_ids :: "db \<Rightarrow> nat list \<Rightarrow> nat \<Rightarrow> contact list" where
  "findAll_ids d ids cid =
     filter (\<lambda>c. c_id c \<in> set ids \<and> c_clientId c = cid) (contacts_tbl d)"

definition findAll_page :: "db \<Rightarrow> nat \<Rightarrow> nat \<Rightarrow> nat \<Rightarrow> contact list" where
  "findAll_page d cid offset limit = take limit (drop offset (findAll_client d cid))"

section \<open>The batched revision (\<open>src/unnamed/part_001\<close>)\<close>

subsection \<open>Fetching all contacts of a client in pages (lines 78--93)\<close>

text \<open>
  The \<open>while (true)\<close> loop: fetch a page at \<open>offset\<close>, stop at the first empty page,
  otherwise append it and move the offset by \<open>BATCH_SIZE\<close>.
\<close>

function fetchAllPaged :: "db \<Rightarrow> nat \<Rightarrow> nat \<Rightarrow> contact list \<Rightarrow> contact list" where
  "fetchAllPaged d cid offset contacts =
     (let batchContacts = findAll_page d cid offset BATCH_SIZE in
      if batchContacts = [] then contacts
      else fetchAllPaged d cid (offset + BATCH_SIZE) (contacts @ batchContacts))"
  by pat_completeness auto
termination
  by (relation "measure (\<lambda>(d, cid, offset, contacts). length (findAll_client d cid) - offset)")
     (auto simp: findAll_page_def BATCH_SIZE_def)

subsection \<open>Sending one batch (\<open>processBatch\<close>, lines 136--170)\<close>

record dispatch_state =
  sentMessages :: "message_detail list"
  failedMessages :: "message_detail list"
  trace :: "event list"

definition sent_detail :: "contact \<Rightarrow> message_detail" where
  "sent_detail c =
     \<lparr>contactId = c_id c, det_name = c_name c, det_phone = c_phone c,
      det_status = ''sent'', det_error = None\<rparr>"

definition failed_detail :: "contact \<Rightarrow> string \<Rightarrow> message_detail" where
  "failed_detail c e =
     \<lparr>contactId = c_id c, det_name = c_name c, det_phone = c_phone c,
      det_status = ''failed'', det_error = Some e\<rparr>"

fun is_call :: "event \<Rightarrow> bool" where
  "is_call (GatewayCall _ _) = True"
| "is_call (Settled _) = False"
| "is_call (Sleep _) = False"

definition callCount :: "dispatch_state \<Rightarrow> nat" where
  "callCount st = length (filter is_call (trace st))"

text \<open>
  \<open>batch.map(async (contact) => ...)\<close> runs each callback up to its first \<open>await\<close>, in
  the order of the batch: \<open>addPrefixToPhoneNumber\<close> is applied and, unless it throws,
  the gateway request is issued. A throw is caught by the callback's own \<open>catch\<close>, which
  pushes the contact on \<open>failedMessages\<close> at once. The calls issued wait in a list,
  each with its index among the calls of the request and what \<open>sendSMS\<close> will return.
\<close>

fun issueCalls ::
  "environment \<Rightarrow> js_string \<Rightarrow> contact list \<Rightarrow> dispatch_state \<Rightarrow> (nat \<times> contact \<times> js_value) list
     \<Rightarrow> dispatch_state \<times> (nat \<times> contact \<times> js_value) list" where
  "issueCalls env msg [] st pending = (st, pending)"
| "issueCalls env msg (c # cs) st pending =
     (case addPrefixToPhoneNumber env (c_phone c) of
        Inl e \<Rightarrow>
          issueCalls env msg cs
            (st\<lparr>failedMessages := failedMessages st @ [failed_detail c e]\<rparr>) pending
      | Inr number \<Rightarrow>
          issueCalls env msg cs
            (st\<lparr>trace := trace st @ [GatewayCall number msg]\<rparr>)
            (pending @ [(callCount st, c, sendSMS env (callCount st) number msg)]))"

text \<open>
  The rest of a callback, when its call has settled: \<open>smsResult === 200\<close> pushes on
  \<open>sentMessages\<close>, anything else on \<open>failedMessages\<close> with
  \<open>smsResult.error || "Unknown error"\<close>.
\<close>

definition settleCall :: "dispatch_state \<Rightarrow> (nat \<times> contact \<times> js_value) \<Rightarrow> dispatch_state" where
  "settleCall st p =
     (case p of (k, c, smsResult) \<Rightarrow>
        if smsResult = Number 200
        then st\<lparr>sentMessages := sentMessages st @ [sent_detail c],
                trace := trace st @ [Settled k]\<rparr>
        else st\<lparr>failedMessages := failedMessages st @
               [failed_detail c (case js_error_field smsResult of
                                   Some e \<Rightarrow> e | None \<Rightarrow> ''Unknown error'')],
                trace := trace st @ [Settled k]\<rparr>)"

text \<open>
  \<open>await Promise.all(batchPromises)\<close>: the calls of the batch settle in the order of
  their latencies (calls of equal latency in the order they were issued).
\<close>

definition processBatch ::
  "environment \<Rightarrow> js_string \<Rightarrow> contact list \<Rightarrow> dispatch_state \<Rightarrow> dispatch_state" where
  "processBatch env msg batch st =
     (case issueCalls env msg batch st [] of
        (st1, pending) \<Rightarrow>
          foldl settleCall st1 (sort_key (\<lambda>p. latency env (fst p)) pending))"

subsection \<open>The loop over the batches (lines 172--178)\<close>

function dispatchLoop ::
  "environment \<Rightarrow> js_string \<Rightarrow> contact list \<Rightarrow> nat \<Rightarrow> dispatch_state \<Rightarrow> dispatch_state" where
  "dispatchLoop env msg contacts i st =
     (if i < length contacts then
        let batch = take BATCH_SIZE (drop i contacts);
            st1 = processBatch env msg batch st;
            st2 = (if i + BATCH_SIZE < length contacts
                   then st1\<lparr>trace := trace st1 @ [Sleep 1000]\<rparr> else st1)
        in dispatchLoop env msg contacts (i + BATCH_SIZE) st2
      else st)"
  by pat_completeness auto
termination
  by (relation "measure (\<lambda>(env, msg, contacts, i, st). length contacts - i)")
     (auto simp: BATCH_SIZE_def)

subsection \<open>\<open>sendSms\<close> (lines 10--220)\<close>

text \<open>Lines 76--110: the contacts of the request, or the response of an early return.\<close>

definition resolveContacts_part_001 ::
  "environment \<Rightarrow> request \<Rightarrow> db \<Rightarrow> response + contact list" where
  "resolveContacts_part_001 env req d =
     (case faults env FindContacts of
        Some e \<Rightarrow> Inl (ServerError e)
      | None \<Rightarrow>
          if sendToAll req then Inr (fetchAllPaged d (req_clientId req) 0 [])
          else
            (case contactIds req of
               None \<Rightarrow> Inl (ServerError ''Cannot read properties of undefined'')
             | Some ids \<Rightarrow>
                 let contacts = findAll_ids d ids (req_clientId req) in
                 if length contacts \<noteq> length ids then Inl ContactsMismatch
                 else Inr contacts))"

text \<open>
  Lines 180--195: the writes staged in the transaction and the balance the in-memory
  \<open>smsBalance\<close> object then holds, or the message of an exception.
\<close>

definition settle_part_001 ::
  "environment \<Rightarrow> nat \<Rightarrow> js_string \<Rightarrow> int \<Rightarrow> nat \<Rightarrow> string + (int \<times> db_write list)" where
  "settle_part_001 env cid msg bal successfulSends =
     (if successfulSends > 0 then
        (case faults env DeductSms of
           Some e \<Rightarrow> Inl e
         | None \<Rightarrow>
             (case deductSms bal successfulSends of
                Inl e \<Rightarrow> Inl e
              | Inr bal' \<Rightarrow>
                  (case faults env CreateHistory of
                     Some e \<Rightarrow> Inl e
                   | None \<Rightarrow>
                       Inr (bal',
                            [BalanceWrite cid bal',
                             HistoryWrite
                               \<lparr>hist_clientId = cid, hist_message = msg,
                                recipientCount = successfulSends,
                                smsUsed = successfulSends,
                                hist_status = ''sent'', createdAt = now env\<rparr>]))))
      else Inr (bal, []))"

text \<open>Lines 133--134: both result lists start empty; no gateway call has been made.\<close>

definition initial_state :: dispatch_state where
  "initial_state = \<lparr>sentMessages = [], failedMessages = [], trace = []\<rparr>"

text \<open>Lines 132--211: dispatch, settle, commit and answer; a throw rolls back.\<close>

definition dispatch_part_001 ::
  "environment \<Rightarrow> request \<Rightarrow> js_string \<Rightarrow> int \<Rightarrow> contact list \<Rightarrow> db \<Rightarrow> result" where
  "dispatch_part_001 env req msg bal contacts d =
     (let st = dispatchLoop env msg contacts 0 initial_state;
          successfulSends = length (sentMessages st)
      in case settle_part_001 env (req_clientId req) msg bal successfulSends of
           Inl e \<Rightarrow> finish d (trace st) (ServerError e)
         | Inr (bal', pending) \<Rightarrow>
             (case faults env Commit of
                Some e \<Rightarrow> finish d (trace st) (ServerError e)
              | None \<Rightarrow>
                  \<lparr>response =
                     CompletedBatched (length contacts) (length (sentMessages st))
                       (length (failedMessages st)) successfulSends bal'
                       (sentMessages st) (failedMessages st),
                   db_after = commit d pending,
                   events = trace st,
                   committed = pending\<rparr>))"

text \<open>Lines 54--130: the rate limit, the balance row, the contacts, the balance check.\<close>

definition checked_part_001 ::
  "environment \<Rightarrow> request \<Rightarrow> js_string \<Rightarrow> nat \<Rightarrow> db \<Rightarrow> result" where
  "checked_part_001 env req msg totalContactsCount d =
     (if totalContactsCount > MAX_SMS_PER_REQUEST
      then finish d [] (MaximumExceeded MAX_SMS_PER_REQUEST)
      else
        (case faults env FindBalance of
           Some e \<Rightarrow> finish d [] (ServerError e)
         | None \<Rightarrow>
             (case map_of (balances_tbl d) (req_clientId req) of
                None \<Rightarrow> finish d [] BalanceNotFound
              | Some bal \<Rightarrow>
                  (case resolveContacts_part_001 env req d of
                     Inl r \<Rightarrow> finish d [] r
                   | Inr contacts \<Rightarrow>
                       if length contacts = 0 then finish d [] NoContactsFound
                       else if \<not> hasEnoughBalance bal (length contacts)
                       then finish d [] (InsufficientBalance (length contacts) bal)
                       else dispatch_part_001 env req msg bal contacts d))))"

text \<open>Lines 10--52: validation, the message, the number of contacts of the request.\<close>

definition sendSms_part_001 :: "environment \<Rightarrow> request \<Rightarrow> db \<Rightarrow> result" where
  "sendSms_part_001 env req d =
     (if \<not> validationOk req then finish d [] ValidationErrors
      else
        (case message req of
           None \<Rightarrow> finish d [] MessageRequired
         | Some msg \<Rightarrow>
             if js_trim msg = [] then finish d [] MessageRequired
             else if sendToAll req then
               (case faults env CountContacts of
                  Some e \<Rightarrow> finish d [] (ServerError e)
                | None \<Rightarrow>
                    checked_part_001 env req msg
                      (length (findAll_client d (req_clientId req))) d)
             else
               (case contactIds req of
                  Some ids \<Rightarrow> checked_part_001 env req msg (length ids) d
                | None \<Rightarrow> finish d [] ContactIdsRequired)))"

section \<open>The single gateway call of the other two revisions\<close>

text \<open>
  \<open>contacts.map((c) => addPrefixToPhoneNumber(c.phone))\<close>: the prefixed numbers, or
  the message of the first exception.
\<close>

fun prefixAll :: "environment \<Rightarrow> contact list \<Rightarrow> string + string list" where
  "prefixAll env [] = Inr []"
| "prefixAll env (c # cs) =
     (case addPrefixToPhoneNumber env (c_phone c) of
        Inl e \<Rightarrow> Inl e
      | Inr number \<Rightarrow>
          (case prefixAll env cs of
             Inl e \<Rightarrow> Inl e
           | Inr numbers \<Rightarrow> Inr (number # numbers)))"

section \<open>The single-call revision (\<open>src/controllers/smsController.js\<close>)\<close>

text \<open>Lines 35--60: the contacts of the request, or the response of an early return.\<close>

definition resolveContacts_controller ::
  "environment \<Rightarrow> request \<Rightarrow> db \<Rightarrow> response + contact list" where
  "resolveContacts_controller env req d =
     (if sendToAll req then
        (case faults env FindContacts of
           Some e \<Rightarrow> Inl (ServerError e)
         | None \<Rightarrow> Inr (findAll_client d (req_clientId req)))
      else
        (case contactIds req of
           Some ids \<Rightarrow>
             (case faults env FindContacts of
                Some e \<Rightarrow> Inl (ServerError e)
              | None \<Rightarrow>
                  let contacts = findAll_ids d ids (req_clientId req) in
                  if length contacts \<noteq> length ids then Inl ContactsMismatch
                  else Inr contacts)
         | None \<Rightarrow> Inl ContactIdsRequired))"

text \<open>
  Lines 102--114: the debit of \<open>contacts.length\<close> and the history row, staged in the
  transaction, with the balance the in-memory object then holds; or the message of an
  exception.
\<close>

definition settle_controller ::
  "environment \<Rightarrow> nat \<Rightarrow> js_string \<Rightarrow> int \<Rightarrow> nat \<Rightarrow> js_value \<Rightarrow> string + (int \<times> db_write list)" where
  "settle_controller env cid msg bal n sendResponse =
     (case faults env DeductSms of
        Some e \<Rightarrow> Inl e
      | None \<Rightarrow>
          (case deductSms bal n of
             Inl e \<Rightarrow> Inl e
           | Inr bal' \<Rightarrow>
               (case faults env CreateHistory of
                  Some e \<Rightarrow> Inl e
                | None \<Rightarrow>
                    Inr (bal',
                         [BalanceWrite cid bal',
                          HistoryWrite
                            \<lparr>hist_clientId = cid, hist_message = msg,
                             recipientCount = n, smsUsed = n,
                             hist_status = (if js_success sendResponse then ''sent''
                                            else ''failed''),
                             createdAt = now env\<rparr>]))))"

text \<open>Lines 78--127: the balance check, the one gateway call, settle, commit and answer.\<close>

definition dispatch_controller ::
  "environment \<Rightarrow> request \<Rightarrow> js_string \<Rightarrow> contact list \<Rightarrow> db \<Rightarrow> result" where
  "dispatch_controller env req msg contacts d =
     (case faults env FindBalance of
        Some e \<Rightarrow> finish d [] (ServerError e)
      | None \<Rightarrow>
          let smsBalance = map_of (balances_tbl d) (req_clientId req) in
          (case smsBalance of
             None \<Rightarrow> finish d [] (InsufficientBalance (length contacts) 0)
           | Some bal \<Rightarrow>
               if \<not> hasEnoughBalance bal (length contacts)
               then finish d [] (InsufficientBalance (length contacts) bal)
               else
                 (case prefixAll env contacts of
                    Inl e \<Rightarrow> finish d [] (ServerError e)
                  | Inr prefixed \<Rightarrow>
                      let numbers = join_comma prefixed;
                          sendResponse = sendSMS env 0 numbers msg;
                          evs = [GatewayCall numbers msg, Settled 0]
                      in (case settle_controller env (req_clientId req) msg bal
                                 (length contacts) sendResponse of
                            Inl e \<Rightarrow> finish d evs (ServerError e)
                          | Inr (bal', pending) \<Rightarrow>
                              (case faults env Commit of
                                 Some e \<Rightarrow> finish d evs (ServerError e)
                               | None \<Rightarrow>
                                   \<lparr>response =
                                      CompletedBulk (length contacts)
                                        (if js_success sendResponse then ''sent''
                                         else ''failed'')
                                        sendResponse bal',
                                    db_after = commit d pending,
                                    events = evs,
                                    committed = pending\<rparr>)))))"

text \<open>Lines 8--136: \<open>sendSms\<close>.\<close>

definition sendSms_controller :: "environment \<Rightarrow> request \<Rightarrow> db \<Rightarrow> result" where
  "sendSms_controller env req d =
     (if \<not> validationOk req then finish d [] ValidationErrors
      else
        (case message req of
           None \<Rightarrow> finish d [] MessageRequired
         | Some msg \<Rightarrow>
             if js_trim msg = [] then finish d [] MessageRequired
             else
               (case resolveContacts_controller env req d of
                  Inl r \<Rightarrow> finish d [] r
                | Inr contacts \<Rightarrow>
                    if length contacts = 0 then finish d [] NoContactsFound
                    else if length contacts > MAX_SMS_PER_REQUEST
                    then finish d [] (MaximumExceeded MAX_SMS_PER_REQUEST)
                    else dispatch_controller env req msg contacts d)))"

section \<open>The single-call revision (\<open>src/unnamed/part_002\<close>)\<close>

text \<open>Lines 37--62: the contacts of the request, or the response of an early return.\<close>

definition resolveContacts_part_002 ::
  "environment \<Rightarrow> request \<Rightarrow> db \<Rightarrow> response + contact list" where
  "resolveContacts_part_002 env req d =
     (if sendToAll req then
        (case faults env FindContacts of
           Some e \<Rightarrow> Inl (ServerError e)
         | None \<Rightarrow> Inr (findAll_client d (req_clientId req)))
      else
        (case contactIds req of
           Some ids \<Rightarrow>
             (case faults env FindContacts of
                Some e \<Rightarrow> Inl (ServerError e)
              | None \<Rightarrow>
                  let contacts = findAll_ids d ids (req_clientId req) in
                  if length contacts \<noteq> length ids then Inl ContactsMismatch
                  else Inr contacts)
         | None \<Rightarrow> Inl ContactIdsRequired))"

text \<open>
  Lines 104--116: the debit of \<open>contacts.length\<close> and the history row, staged in the
  transaction, with the balance the in-memory object then holds; or the message of an
  exception.
\<close>

definition settle_part_002 ::
  "environment \<Rightarrow> nat \<Rightarrow> js_string \<Rightarrow> int \<Rightarrow> nat \<Rightarrow> js_value \<Rightarrow> string + (int \<times> db_write list)" where
  "settle_part_002 env cid msg bal n sendResponse =
     (case faults env DeductSms of
        Some e \<Rightarrow> Inl e
      | None \<Rightarrow>
          (case deductSms bal n of
             Inl e \<Rightarrow> Inl e
           | Inr bal' \<Rightarrow>
               (case faults env CreateHistory of
                  Some e \<Rightarrow> Inl e
                | None \<Rightarrow>
                    Inr (bal',
                         [BalanceWrite cid bal',
                          HistoryWrite
                            \<lparr>hist_clientId = cid, hist_message = msg,
                             recipientCount = n, smsUsed = n,
                             hist_status = (if js_success sendResponse then ''sent''
                                            else ''failed''),
                             createdAt = now env\<rparr>]))))"

text \<open>Lines 80--129: the balance check, the one gateway call, settle, commit and answer.\<close>

definition dispatch_part_002 ::
  "environment \<Rightarrow> request \<Rightarrow> js_string \<Rightarrow> contact list \<Rightarrow> db \<Rightarrow> result" where
  "dispatch_part_002 env req msg contacts d =
     (case faults env FindBalance of
        Some e \<Rightarrow> finish d [] (ServerError e)
      | None \<Rightarrow>
          let smsBalance = map_of (balances_tbl d) (req_clientId req) in
          (case smsBalance of
             None \<Rightarrow> finish d [] (InsufficientBalance (length contacts) 0)
           | Some bal \<Rightarrow>
               if \<not> hasEnoughBalance bal (length contacts)
               then finish d [] (InsufficientBalance (length contacts) bal)
               else
                 (case prefixAll env contacts of
                    Inl e \<Rightarrow> finish d [] (ServerError e)
                  | Inr prefixed \<Rightarrow>
                      let numbers = join_comma prefixed;
                          sendResponse = sendSMS env 0 numbers msg;
                          evs = [GatewayCall numbers msg, Settled 0]
                      in (case settle_part_002 env (req_clientId req) msg bal
                                 (length contacts) sendResponse of
                            Inl e \<Rightarrow> finish d evs (ServerError e)
                          | Inr (bal', pending) \<Rightarrow>
                              (case faults env Commit of
                                 Some e \<Rightarrow> finish d evs (ServerError e)
                               | None \<Rightarrow>
                                   \<lparr>response =
                                      CompletedBulk (length contacts)
                                        (if js_success sendResponse then ''sent''
                                         else ''failed'')
                                        sendResponse bal',
                                    db_after = commit d pending,
                                    events = evs,
                                    committed = pending\<rparr>)))))"

text \<open>Lines 10--138: \<open>sendSms\<close>.\<close>

definition sendSms_part_002 :: "environment \<Rightarrow> request \<Rightarrow> db \<Rightarrow> result" where
  "sendSms_part_002 env req d =
     (if \<not> validationOk req then finish d [] ValidationErrors
      else
        (case message req of
           None \<Rightarrow> finish d [] MessageRequired
         | Some msg \<Rightarrow>
             if js_trim msg = [] then finish d [] MessageRequired
             else
               (case resolveContacts_part_002 env req d of
                  Inl r \<Rightarrow> finish d [] r
                | Inr contacts \<Rightarrow>
                    if length contacts = 0 then finish d [] NoContactsFound
                    else if length contacts > MAX_SMS_PER_REQUEST
                    then finish d [] (MaximumExceeded MAX_SMS_PER_REQUEST)
                    else dispatch_part_002 env req msg contacts d)))"

section \<open>Conditions the statements refer to\<close>

text \<open>
  The request passes the checks of lines 14--36 of \<open>part_001\<close> (validation result
  empty, \<open>message\<close> a string that is not blank), with \<open>msg\<close> its message.
\<close>

definition request_ok :: "request \<Rightarrow> js_string \<Rightarrow> bool" where
  "request_ok req msg = (validationOk req \<and> message req = Some msg \<and> js_trim msg \<noteq> [])"

text \<open>
  None of the reads of storage throws; none of the writes of the settlement (the debit,
  the history row, the commit) throws.
\<close>

definition reads_ok :: "environment \<Rightarrow> bool" where
  "reads_ok env =
     (faults env CountContacts = None \<and> faults env FindContacts = None \<and>
      faults env FindBalance = None)"

definition writes_ok :: "environment \<Rightarrow> bool" where
  "writes_ok env =
     (faults env DeductSms = None \<and> faults env CreateHistory = None \<and>
      faults env Commit = None)"

text \<open>
  The recipients of a request once the selection is resolved: all contacts of the
  client, or the contacts with the ids given when every id given is fetched; there is
  no recipient list when the selection is empty or above \<open>MAX_SMS_PER_REQUEST\<close>. The
  lemmas \<open>part_001_path\<close>, \<open>controller_path\<close> and \<open>part_002_path\<close> show that each
  revision goes on with exactly this list.
\<close>

definition resolved_recipients :: "request \<Rightarrow> db \<Rightarrow> contact list option" where
  "resolved_recipients req d =
     (let found =
            (if sendToAll req then Some (findAll_client d (req_clientId req))
             else
               (case contactIds req of
                  None \<Rightarrow> None
                | Some ids \<Rightarrow>
                    if length (findAll_ids d ids (req_clientId req)) = length ids
                    then Some (findAll_ids d ids (req_clientId req)) else None))
      in case found of
           None \<Rightarrow> None
         | Some contacts \<Rightarrow>
             if contacts = [] \<or> length contacts > MAX_SMS_PER_REQUEST then None
             else Some contacts)"

text \<open>
  A response sent after a commit, and the sent count it reports (0 for a request that
  was rejected or rolled back).
\<close>

fun is_completed :: "response \<Rightarrow> bool" where
  "is_completed (CompletedBatched _ _ _ _ _ _ _) = True"
| "is_completed (CompletedBulk _ _ _ _) = True"
| "is_completed _ = False"

fun sentCount_of :: "response \<Rightarrow> nat" where
  "sentCount_of (CompletedBatched totalContacts sentCount failedCount used remaining sent failed) =
     sentCount"
| "sentCount_of _ = 0"

text \<open>
  The history rows the revisions write: \<open>part_001\<close> always with the status "sent",
  the single-call revisions with the status the \<open>success\<close> read gives.
\<close>

definition sent_history :: "environment \<Rightarrow> nat \<Rightarrow> js_string \<Rightarrow> nat \<Rightarrow> history_entry" where
  "sent_history env cid msg n =
     \<lparr>hist_clientId = cid, hist_message = msg, recipientCount = n, smsUsed = n,
      hist_status = ''sent'', createdAt = now env\<rparr>"

definition failed_history :: "environment \<Rightarrow> nat \<Rightarrow> js_string \<Rightarrow> nat \<Rightarrow> history_entry" where
  "failed_history env cid msg n =
     \<lparr>hist_clientId = cid, hist_message = msg, recipientCount = n, smsUsed = n,
      hist_status = ''failed'', createdAt = now env\<rparr>"

text \<open>
  The debit and the history row as one atomic unit: a call commits nothing and leaves
  the storage as it was, or it commits the debit of the account of the request and one
  history row, and the storage has both; when a write of the settlement throws, it is
  the former.
\<close>

definition atomic_outcome :: "environment \<Rightarrow> request \<Rightarrow> db \<Rightarrow> result \<Rightarrow> bool" where
  "atomic_outcome env req d r =
     (((committed r = [] \<and> db_after r = d) \<or>
       (\<exists>b h. committed r = [BalanceWrite (req_clientId req) b, HistoryWrite h] \<and>
              db_after r =
                d\<lparr>balances_tbl := AList.update (req_clientId req) b (balances_tbl d),
                  history_tbl := history_tbl d @ [h]\<rparr>)) \<and>
      (\<not> writes_ok env \<longrightarrow> committed r = [] \<and> db_after r = d))"

text \<open>
  A sequence of calls of \<open>sendSms\<close> of \<open>part_001\<close>, each on the storage the previous
  one left: the storage at the end and the sum of the sent counts of the account
  \<open>cid\<close>.
\<close>

fun run_sequence_part_001 :: "nat \<Rightarrow> (environment \<times> request) list \<Rightarrow> db \<Rightarrow> db \<times> nat" where
  "run_sequence_part_001 cid [] d = (d, 0)"
| "run_sequence_part_001 cid ((env, req) # rest) d =
     (let r = sendSms_part_001 env req d;
          sent = (if req_clientId req = cid then sentCount_of (response r) else 0)
      in case run_sequence_part_001 cid rest (db_after r) of
           (d', rest_sent) \<Rightarrow> (d', sent + rest_sent))"

section \<open>Descriptions of the dispatcher the statements refer to\<close>

text \<open>
  The gateway calls of one batch, in the order of the batch: one call for every contact
  whose number \<open>addPrefixToPhoneNumber\<close> accepts.
\<close>

fun batch_calls :: "environment \<Rightarrow> js_string \<Rightarrow> contact list \<Rightarrow> event list" where
  "batch_calls env msg [] = []"
| "batch_calls env msg (c # cs) =
     (case addPrefixToPhoneNumber env (c_phone c) of
        Inl e \<Rightarrow> batch_calls env msg cs
      | Inr number \<Rightarrow> GatewayCall number msg # batch_calls env msg cs)"

text \<open>
  The partition the dispatcher is described by: consecutive batches of \<open>n\<close> elements, the
  last one possibly shorter.
\<close>

function batches_spec :: "nat \<Rightarrow> 'a list \<Rightarrow> 'a list list" where
  "batches_spec n xs =
     (if n = 0 \<or> xs = [] then [] else take n xs # batches_spec n (drop n xs))"
  by pat_completeness auto
termination
  by (relation "measure (\<lambda>(n, xs). length xs)") auto

text \<open>
  The work of one batch, when \<open>k\<close> calls were issued before it: first every call of the
  batch is issued, in the order of the batch, then every one of these calls settles, in
  the order of the latencies.
\<close>

definition batch_trace :: "environment \<Rightarrow> js_string \<Rightarrow> nat \<Rightarrow> contact list \<Rightarrow> event list" where
  "batch_trace env msg k b =
     batch_calls env msg b @
     map Settled (sort_key (latency env) [k ..< k + length (batch_calls env msg b)])"

text \<open>
  Batches processed strictly one after the other: the whole work of a batch, then the
  fixed pause, then the next batch; no pause after the last batch.
\<close>

fun sequential_trace ::
  "environment \<Rightarrow> js_string \<Rightarrow> nat \<Rightarrow> contact list list \<Rightarrow> event list" where
  "sequential_trace env msg k [] = []"
| "sequential_trace env msg k [b] = batch_trace env msg k b"
| "sequential_trace env msg k (b # b' # bs) =
     batch_trace env msg k b @ [Sleep 1000] @
     sequential_trace env msg (k + length (batch_calls env msg b)) (b' # bs)"

text \<open>
  The same on the state of the dispatcher: \<open>processBatch\<close> runs on a batch to its end
  (its calls issued and settled, the results pushed) before the pause and before
  \<open>processBatch\<close> starts on the next batch.
\<close>

fun run_batches ::
  "environment \<Rightarrow> js_string \<Rightarrow> contact list list \<Rightarrow> dispatch_state \<Rightarrow> dispatch_state" where
  "run_batches env msg [] st = st"
| "run_batches env msg [b] st = processBatch env msg b st"
| "run_batches env msg (b # b' # bs) st =
     run_batches env msg (b' # bs)
       ((processBatch env msg b st)
          \<lparr>trace := trace (processBatch env msg b st) @ [Sleep 1000]\<rparr>)"

text \<open>
  The outcome of every recipient on its own, in the order of the input: failed with the
  message of the exception when the number cannot be prefixed, sent when its own gateway
  call (the \<open>k\<close>-th call issued) returned 200, failed with "Unknown error" otherwise.
\<close>

fun outcome_spec :: "environment \<Rightarrow> js_string \<Rightarrow> nat \<Rightarrow> contact list \<Rightarrow> message_detail list" where
  "outcome_spec env msg k [] = []"
| "outcome_spec env msg k (c # cs) =
     (case addPrefixToPhoneNumber env (c_phone c) of
        Inl e \<Rightarrow> failed_detail c e # outcome_spec env msg k cs
      | Inr number \<Rightarrow>
          (if sendSMS env k number msg = Number 200 then sent_detail c
           else failed_detail c ''Unknown error'') # outcome_spec env msg (Suc k) cs)"

definition is_sent :: "message_detail \<Rightarrow> bool" where
  "is_sent m = (det_status m = ''sent'')"

text \<open>
  What a settled call pushes on the result lists.
\<close>

definition settled_detail :: "(nat \<times> contact \<times> js_value) \<Rightarrow> message_detail" where
  "settled_detail p =
     (case p of (t, c, r) \<Rightarrow>
        if r = Number 200 then sent_detail c else failed_detail c ''Unknown error'')"

section \<open>Concrete inputs\<close>

text \<open>The message "hi", and a message that is one no-break space (U+00A0).\<close>

definition message_hi :: js_string where
  "message_hi = [0x68, 0x69]"

definition message_nbsp :: js_string where
  "message_nbsp = [0xA0]"

text \<open>
  Three contacts, two of client 1 and one of client 2; client 1 has a balance of 5.
  A second storage holds ten contacts of client 1 and a balance of 2.
\<close>

definition contact_a :: contact where
  "contact_a = \<lparr>c_id = 1, c_name = ''a'', c_phone = ''700000001'', c_clientId = 1\<rparr>"

definition contact_b :: contact where
  "contact_b = \<lparr>c_id = 2, c_name = ''b'', c_phone = ''700000002'', c_clientId = 1\<rparr>"

definition contact_c :: contact where
  "contact_c = \<lparr>c_id = 3, c_name = ''c'', c_phone = ''700000003'', c_clientId = 2\<rparr>"

definition db_demo :: db where
  "db_demo =
     \<lparr>contacts_tbl = [contact_a, contact_b, contact_c],
      balances_tbl = [(1, 5), (2, 1)], history_tbl = []\<rparr>"

definition db_ten :: db where
  "db_ten =
     \<lparr>contacts_tbl =
        map (\<lambda>i. \<lparr>c_id = i, c_name = ''n'', c_phone = ''700000000'', c_clientId = 1\<rparr>)
          [1, 2, 3, 4, 5, 6, 7, 8, 9, 10],
      balances_tbl = [(1, 2)], history_tbl = []\<rparr>"

text \<open>
  Requests of a client, with explicit ids or to all contacts.
\<close>

definition explicit_request :: "nat \<Rightarrow> nat list \<Rightarrow> request" where
  "explicit_request cid ids =
     \<lparr>req_clientId = cid, validationOk = True, message = Some message_hi,
      contactIds = Some ids, sendToAll = False\<rparr>"

definition all_request :: "nat \<Rightarrow> request" where
  "all_request cid =
     \<lparr>req_clientId = cid, validationOk = True, message = Some message_hi,
      contactIds = None, sendToAll = True\<rparr>"

text \<open>
  Environments: the gateway accepts every call; the gateway refuses the second
  contact when called for it alone (and that call settles first); the gateway cannot be
  reached; the commit throws.
\<close>

definition env_ok :: environment where
  "env_ok =
     \<lparr>gateway = (\<lambda>k numbers msg. HttpStatus 200),
      latency = (\<lambda>k. 0),
      addPrefixToPhoneNumber = (\<lambda>p. Inr (''255'' @ p)),
      faults = (\<lambda>s. None), now = 7\<rparr>"

definition env_mixed :: environment where
  "env_mixed =
     \<lparr>gateway = (\<lambda>k numbers msg. if numbers = ''255700000002'' then HttpStatus 500
                                  else HttpStatus 200),
      latency = (\<lambda>k. 10 - k),
      addPrefixToPhoneNumber = (\<lambda>p. Inr (''255'' @ p)),
      faults = (\<lambda>s. None), now = 7\<rparr>"

definition env_down :: environment where
  "env_down =
     \<lparr>gateway = (\<lambda>k numbers msg. TransportError ''timeout''),
      latency = (\<lambda>k. 0),
      addPrefixToPhoneNumber = (\<lambda>p. Inr (''255'' @ p)),
      faults = (\<lambda>s. None), now = 7\<rparr>"

definition env_commit_fails :: environment where
  "env_commit_fails =
     \<lparr>gateway = (\<lambda>k numbers msg. HttpStatus 200),
      latency = (\<lambda>k. 0),
      addPrefixToPhoneNumber = (\<lambda>p. Inr (''255'' @ p)),
      faults = (\<lambda>s. if s = Commit then Some ''commit failed'' else None), now = 7\<rparr>"

section \<open>Properties of the dispatcher of \<open>src/unnamed/part_001\<close>\<close>

declare batches_spec.simps [simp del]

declare dispatchLoop.simps [simp del]

declare fetchAllPaged.simps [simp del]

lemma dispatchLoop_done:
  "\<not> i < length contacts \<Longrightarrow> dispatchLoop env msg contacts i st = st"
  by (subst dispatchLoop.simps) simp

lemma dispatchLoop_last:
  "i < length contacts \<Longrightarrow> \<not> i + BATCH_SIZE < length contacts \<Longrightarrow>
   dispatchLoop env msg contacts i st =
     processBatch env msg (take BATCH_SIZE (drop i contacts)) st"
  by (subst dispatchLoop.simps) (simp add: Let_def dispatchLoop_done)

lemma dispatchLoop_more:
  "i + BATCH_SIZE < length contacts \<Longrightarrow>
   dispatchLoop env msg contacts i st =
     dispatchLoop env msg contacts (i + BATCH_SIZE)
       ((processBatch env msg (take BATCH_SIZE (drop i contacts)) st)
          \<lparr>trace := trace (processBatch env msg (take BATCH_SIZE (drop i contacts)) st) @
                      [Sleep 1000]\<rparr>)"
  by (subst dispatchLoop.simps) (simp add: Let_def)

lemma fetchAllPaged_eq:
  "fetchAllPaged d cid offset acc = acc @ drop offset (findAll_client d cid)"
proof (induction d cid offset acc rule: fetchAllPaged.induct)
  case (1 d cid offset contacts)
  show ?case
  proof (cases "findAll_page d cid offset BATCH_SIZE = []")
    case True
    then have "drop offset (findAll_client d cid) = []"
      by (simp add: findAll_page_def BATCH_SIZE_def)
    with True show ?thesis by (subst fetchAllPaged.simps) simp
  next
    case False
    have "take BATCH_SIZE (drop offset (findAll_client d cid)) @
          drop (offset + BATCH_SIZE) (findAll_client d cid) = drop offset (findAll_client d cid)"
      by (metis add.commute append_take_drop_id drop_drop)
    with False "1.IH" show ?thesis
      by (subst fetchAllPaged.simps) (simp add: findAll_page_def Let_def)
  qed
qed

lemma batches_spec_Nil [simp]: "batches_spec n [] = []"
  by (simp add: batches_spec.simps)

lemma batches_spec_step:
  "0 < n \<Longrightarrow> xs \<noteq> [] \<Longrightarrow> batches_spec n xs = take n xs # batches_spec n (drop n xs)"
  by (subst batches_spec.simps) simp

lemma batches_spec_empty_iff: "0 < n \<Longrightarrow> batches_spec n xs = [] \<longleftrightarrow> xs = []"
  by (subst batches_spec.simps) simp

lemma concat_batches_spec: "0 < n \<Longrightarrow> concat (batches_spec n xs) = xs"
proof (induction n xs rule: batches_spec.induct)
  case (1 n xs)
  then show ?case by (cases "xs = []") (simp_all add: batches_spec_step)
qed

lemma batches_spec_sizes:
  "0 < n \<Longrightarrow> b \<in> set (batches_spec n xs) \<Longrightarrow> b \<noteq> [] \<and> length b \<le> n"
proof (induction n xs rule: batches_spec.induct)
  case (1 n xs)
  show ?case
  proof (cases "xs = []")
    case True
    with "1.prems" show ?thesis by simp
  next
    case False
    with "1.prems" have "b = take n xs \<or> b \<in> set (batches_spec n (drop n xs))"
      by (simp add: batches_spec_step)
    then show ?thesis
    proof
      assume "b = take n xs"
      with False "1.prems" show ?thesis by simp
    next
      assume "b \<in> set (batches_spec n (drop n xs))"
      with "1.IH" False "1.prems" show ?thesis by simp
    qed
  qed
qed

lemma batches_spec_full:
  "0 < n \<Longrightarrow> b \<in> set (butlast (batches_spec n xs)) \<Longrightarrow> length b = n"
proof (induction n xs rule: batches_spec.induct)
  case (1 n xs)
  show ?case
  proof (cases "xs = []")
    case True
    with "1.prems" show ?thesis by simp
  next
    case False
    show ?thesis
    proof (cases "drop n xs = []")
      case True
      with False "1.prems" show ?thesis by (simp add: batches_spec_step)
    next
      case rest: False
      then have ne: "batches_spec n (drop n xs) \<noteq> []"
        using "1.prems"(1) by (simp add: batches_spec_empty_iff)
      from rest have len: "n < length xs" by simp
      from "1.prems" False ne
      have "b = take n xs \<or> b \<in> set (butlast (batches_spec n (drop n xs)))"
        by (simp add: batches_spec_step)
      then show ?thesis
      proof
        assume "b = take n xs"
        with len show ?thesis by simp
      next
        assume "b \<in> set (butlast (batches_spec n (drop n xs)))"
        with "1.IH" False "1.prems" show ?thesis by simp
      qed
    qed
  qed
qed

lemma trace_settleCall: "trace (settleCall st p) = trace st @ [Settled (fst p)]"
  by (cases p) (simp add: settleCall_def)

lemma trace_foldl_settleCall:
  "trace (foldl settleCall st ps) = trace st @ map Settled (map fst ps)"
  by (induction ps arbitrary: st) (simp_all add: trace_settleCall)

lemma trace_issueCalls:
  "trace (fst (issueCalls env msg cs st pending)) = trace st @ batch_calls env msg cs"
  by (induction cs arbitrary: st pending) (simp_all split: sum.splits)

lemma is_call_batch_calls [simp]: "filter is_call (batch_calls env msg cs) = batch_calls env msg cs"
  by (induction cs) (simp_all split: sum.splits)

lemma is_call_Settled [simp]: "filter is_call (map Settled ks) = []"
  by (induction ks) simp_all

lemma callCount_issue [simp]:
  "callCount (st\<lparr>trace := trace st @ [GatewayCall n m]\<rparr>) = Suc (callCount st)"
  "callCount (st\<lparr>failedMessages := fs\<rparr>) = callCount st"
  by (simp_all add: callCount_def)

lemma indices_issueCalls:
  "map fst (snd (issueCalls env msg cs st pending)) =
     map fst pending @
     [callCount st ..< callCount st + length (batch_calls env msg cs)]"
proof (induction cs arbitrary: st pending)
  case Nil
  then show ?case by simp
next
  case (Cons c cs)
  show ?case
  proof (cases "addPrefixToPhoneNumber env (c_phone c)")
    case (Inl e)
    then show ?thesis using Cons.IH by simp
  next
    case (Inr number)
    have "[callCount st ..< callCount st + Suc (length (batch_calls env msg cs))] =
            callCount st #
            [Suc (callCount st) ..< Suc (callCount st) + length (batch_calls env msg cs)]"
      by (subst upt_conv_Cons) simp_all
    then show ?thesis using Inr Cons.IH by (simp del: upt_Suc)
  qed
qed

lemma insort_key_map:
  "insort_key g (f x) (map f xs) = map f (insort_key (\<lambda>y. g (f y)) x xs)"
  by (induction xs) simp_all

lemma sort_key_map: "sort_key g (map f xs) = map f (sort_key (\<lambda>y. g (f y)) xs)"
  by (induction xs) (simp_all add: insort_key_map)

lemma trace_processBatch:
  "trace (processBatch env msg batch st) = trace st @ batch_trace env msg (callCount st) batch"
proof -
  obtain st1 pending where i: "issueCalls env msg batch st [] = (st1, pending)"
    by (cases "issueCalls env msg batch st []")
  have t: "trace st1 = trace st @ batch_calls env msg batch"
    using trace_issueCalls [of env msg batch st "[]"] i by simp
  have k: "map fst pending =
             [callCount st ..< callCount st + length (batch_calls env msg batch)]"
    using indices_issueCalls [of env msg batch st "[]"] i by simp
  have "map fst (sort_key (\<lambda>p. latency env (fst p)) pending) =
          sort_key (latency env) (map fst pending)"
    by (simp add: sort_key_map)
  then show ?thesis
    by (simp add: processBatch_def i trace_foldl_settleCall t k batch_trace_def)
qed

lemma callCount_settle [simp]: "callCount (foldl settleCall st ps) = callCount st"
  by (simp add: callCount_def trace_foldl_settleCall)

lemma callCount_processBatch:
  "callCount (processBatch env msg batch st) = callCount st + length (batch_calls env msg batch)"
  by (simp add: callCount_def trace_processBatch batch_trace_def)

lemma is_sent_simps [simp]: "is_sent (sent_detail c)" "\<not> is_sent (failed_detail c e)"
  by (simp_all add: is_sent_def sent_detail_def failed_detail_def)

lemma js_error_field_None [simp]: "js_error_field r = None"
  by (cases r) simp_all

lemma settleCall_eq:
  "settleCall st p =
     (if is_sent (settled_detail p)
      then st\<lparr>sentMessages := sentMessages st @ [settled_detail p],
              trace := trace st @ [Settled (fst p)]\<rparr>
      else st\<lparr>failedMessages := failedMessages st @ [settled_detail p],
              trace := trace st @ [Settled (fst p)]\<rparr>)"
  by (cases p) (simp add: settleCall_def settled_detail_def)

lemma foldl_settleCall_sent:
  "mset (sentMessages (foldl settleCall st ps)) =
     mset (sentMessages st) + filter_mset is_sent (image_mset settled_detail (mset ps))"
  by (induction ps arbitrary: st) (simp_all add: settleCall_eq)

lemma foldl_settleCall_failed:
  "mset (failedMessages (foldl settleCall st ps)) =
     mset (failedMessages st) +
     filter_mset (\<lambda>m. \<not> is_sent m) (image_mset settled_detail (mset ps))"
  by (induction ps arbitrary: st) (simp_all add: settleCall_eq)

lemma issueCalls_sent:
  "sentMessages (fst (issueCalls env msg cs st pending)) = sentMessages st"
  by (induction cs arbitrary: st pending) (simp_all split: sum.splits)

lemma issueCalls_pending_sent:
  "filter_mset is_sent (image_mset settled_detail (mset (snd (issueCalls env msg cs st pending)))) =
   filter_mset is_sent (image_mset settled_detail (mset pending)) +
     filter_mset is_sent (mset (outcome_spec env msg (callCount st) cs))"
proof (induction cs arbitrary: st pending)
  case Nil
  then show ?case by simp
next
  case (Cons c cs)
  show ?case
  proof (cases "addPrefixToPhoneNumber env (c_phone c)")
    case (Inl e)
    then show ?thesis using Cons.IH by simp
  next
    case (Inr number)
    then show ?thesis using Cons.IH by (simp add: settled_detail_def)
  qed
qed

lemma issueCalls_pending_failed:
  "filter_mset (\<lambda>m. \<not> is_sent m)
      (image_mset settled_detail (mset (snd (issueCalls env msg cs st pending)))) +
     mset (failedMessages (fst (issueCalls env msg cs st pending))) =
   filter_mset (\<lambda>m. \<not> is_sent m) (image_mset settled_detail (mset pending)) +
     mset (failedMessages st) +
     filter_mset (\<lambda>m. \<not> is_sent m) (mset (outcome_spec env msg (callCount st) cs))"
proof (induction cs arbitrary: st pending)
  case Nil
  then show ?case by simp
next
  case (Cons c cs)
  show ?case
  proof (cases "addPrefixToPhoneNumber env (c_phone c)")
    case (Inl e)
    then show ?thesis using Cons.IH by simp
  next
    case (Inr number)
    then show ?thesis using Cons.IH by (simp add: settled_detail_def)
  qed
qed

lemma processBatch_sent:
  "mset (sentMessages (processBatch env msg batch st)) =
     mset (sentMessages st) +
     filter_mset is_sent (mset (outcome_spec env msg (callCount st) batch))"
proof -
  obtain st1 pending where i: "issueCalls env msg batch st [] = (st1, pending)"
    by (cases "issueCalls env msg batch st []")
  have "sentMessages st1 = sentMessages st"
    using issueCalls_sent [of env msg batch st "[]"] i by simp
  moreover have "filter_mset is_sent (image_mset settled_detail (mset pending)) =
      filter_mset is_sent (mset (outcome_spec env msg (callCount st) batch))"
    using issueCalls_pending_sent [of env msg batch st "[]"] i by simp
  ultimately show ?thesis
    by (simp add: processBatch_def i foldl_settleCall_sent)
qed

lemma processBatch_failed:
  "mset (failedMessages (processBatch env msg batch st)) =
     mset (failedMessages st) +
     filter_mset (\<lambda>m. \<not> is_sent m) (mset (outcome_spec env msg (callCount st) batch))"
proof -
  obtain st1 pending where i: "issueCalls env msg batch st [] = (st1, pending)"
    by (cases "issueCalls env msg batch st []")
  have "filter_mset (\<lambda>m. \<not> is_sent m) (image_mset settled_detail (mset pending)) +
          mset (failedMessages st1) =
        mset (failedMessages st) +
          filter_mset (\<lambda>m. \<not> is_sent m) (mset (outcome_spec env msg (callCount st) batch))"
    using issueCalls_pending_failed [of env msg batch st "[]"] i by simp
  then show ?thesis
    by (simp add: processBatch_def i foldl_settleCall_failed add.commute)
qed

lemma outcome_spec_append:
  "outcome_spec env msg k (xs @ ys) =
     outcome_spec env msg k xs @ outcome_spec env msg (k + length (batch_calls env msg xs)) ys"
  by (induction xs arbitrary: k) (simp_all split: sum.splits)

lemma outcome_spec_ids: "map contactId (outcome_spec env msg k cs) = map c_id cs"
  by (induction cs arbitrary: k)
     (simp_all add: sent_detail_def failed_detail_def split: sum.splits)

lemma outcome_spec_split:
  "outcome_spec env msg k (drop i cs) =
     outcome_spec env msg k (take n (drop i cs)) @
     outcome_spec env msg (k + length (batch_calls env msg (take n (drop i cs)))) (drop (i + n) cs)"
proof -
  have "drop i cs = take n (drop i cs) @ drop (i + n) cs"
    by (metis add.commute append_take_drop_id drop_drop)
  then show ?thesis
    using outcome_spec_append [of env msg k "take n (drop i cs)" "drop (i + n) cs"] by simp
qed

lemma callCount_sleep [simp]:
  "callCount (st\<lparr>trace := trace st @ [Sleep n]\<rparr>) = callCount st"
  by (simp add: callCount_def)

lemma dispatchLoop_outcome:
  "mset (sentMessages (dispatchLoop env msg contacts i st)) =
     mset (sentMessages st) +
     filter_mset is_sent (mset (outcome_spec env msg (callCount st) (drop i contacts))) \<and>
   mset (failedMessages (dispatchLoop env msg contacts i st)) =
     mset (failedMessages st) +
     filter_mset (\<lambda>m. \<not> is_sent m) (mset (outcome_spec env msg (callCount st) (drop i contacts)))"
proof (induction env msg contacts i st rule: dispatchLoop.induct)
  case (1 env msg contacts i st)
  show ?case
  proof (cases "i < length contacts")
    case False
    then show ?thesis by (simp add: dispatchLoop_done)
  next
    case True
    let ?b = "take BATCH_SIZE (drop i contacts)"
    let ?st1 = "processBatch env msg ?b st"
    let ?st2 = "if i + BATCH_SIZE < length contacts
                then ?st1\<lparr>trace := trace ?st1 @ [Sleep 1000]\<rparr> else ?st1"
    have step: "dispatchLoop env msg contacts i st =
                  dispatchLoop env msg contacts (i + BATCH_SIZE) ?st2"
      using True by (subst dispatchLoop.simps) (simp add: Let_def)
    have cc: "callCount ?st2 = callCount st + length (batch_calls env msg ?b)"
      by (simp add: callCount_processBatch)
    have s2: "sentMessages ?st2 = sentMessages ?st1" "failedMessages ?st2 = failedMessages ?st1"
      by simp_all
    note ih = "1.IH" [OF True refl refl refl]
    show ?thesis
      unfolding step
      using ih
      by (simp only: cc s2 processBatch_sent processBatch_failed
            outcome_spec_split [of env msg "callCount st" i contacts BATCH_SIZE]
            mset_append filter_union_mset add.assoc)
  qed
qed

lemma trace_dispatchLoop:
  "trace (dispatchLoop env msg contacts i st) =
     trace st @
     sequential_trace env msg (callCount st) (batches_spec BATCH_SIZE (drop i contacts))"
proof (induction env msg contacts i st rule: dispatchLoop.induct)
  case (1 env msg contacts i st)
  have pos: "0 < BATCH_SIZE" by (simp add: BATCH_SIZE_def)
  show ?case
  proof (cases "i < length contacts")
    case False
    then show ?thesis by (simp add: dispatchLoop_done)
  next
    case True
    then have ne: "drop i contacts \<noteq> []" by simp
    let ?b = "take BATCH_SIZE (drop i contacts)"
    let ?st1 = "processBatch env msg ?b st"
    let ?k1 = "callCount st + length (batch_calls env msg ?b)"
    have dd: "drop BATCH_SIZE (drop i contacts) = drop (i + BATCH_SIZE) contacts"
      by (simp add: add.commute)
    have unf: "batches_spec BATCH_SIZE (drop i contacts) =
                 ?b # batches_spec BATCH_SIZE (drop (i + BATCH_SIZE) contacts)"
      using batches_spec_step [OF pos ne] dd by simp
    show ?thesis
    proof (cases "i + BATCH_SIZE < length contacts")
      case more: True
      then have "drop (i + BATCH_SIZE) contacts \<noteq> []" by simp
      then obtain b' bs where
        rest: "batches_spec BATCH_SIZE (drop (i + BATCH_SIZE) contacts) = b' # bs"
        using batches_spec_empty_iff [OF pos] by (metis list.exhaust)
      let ?st2 = "?st1\<lparr>trace := trace ?st1 @ [Sleep 1000]\<rparr>"
      have cc: "callCount ?st2 = ?k1" by (simp add: callCount_processBatch)
      have "trace (dispatchLoop env msg contacts i st) =
              trace (dispatchLoop env msg contacts (i + BATCH_SIZE) ?st2)"
        using more by (simp add: dispatchLoop_more)
      also have "\<dots> = trace ?st2 @
            sequential_trace env msg (callCount ?st2)
              (batches_spec BATCH_SIZE (drop (i + BATCH_SIZE) contacts))"
        using "1.IH" [OF True refl refl refl] more by simp
      finally show ?thesis
        by (simp only: cc unf rest sequential_trace.simps)
           (simp add: trace_processBatch)
    next
      case last: False
      then have e: "batches_spec BATCH_SIZE (drop (i + BATCH_SIZE) contacts) = []" by simp
      have "trace (dispatchLoop env msg contacts i st) = trace ?st1"
        using True last by (simp add: dispatchLoop_last)
      then show ?thesis
        by (simp add: unf e trace_processBatch)
    qed
  qed
qed

lemma dispatchLoop_run_batches:
  "dispatchLoop env msg contacts i st =
     run_batches env msg (batches_spec BATCH_SIZE (drop i contacts)) st"
proof (induction env msg contacts i st rule: dispatchLoop.induct)
  case (1 env msg contacts i st)
  have pos: "0 < BATCH_SIZE" by (simp add: BATCH_SIZE_def)
  show ?case
  proof (cases "i < length contacts")
    case False
    then show ?thesis by (simp add: dispatchLoop_done)
  next
    case True
    then have ne: "drop i contacts \<noteq> []" by simp
    let ?b = "take BATCH_SIZE (drop i contacts)"
    have dd: "drop BATCH_SIZE (drop i contacts) = drop (i + BATCH_SIZE) contacts"
      by (simp add: add.commute)
    have unf: "batches_spec BATCH_SIZE (drop i contacts) =
                 ?b # batches_spec BATCH_SIZE (drop (i + BATCH_SIZE) contacts)"
      using batches_spec_step [OF pos ne] dd by simp
    show ?thesis
    proof (cases "i + BATCH_SIZE < length contacts")
      case more: True
      then have "drop (i + BATCH_SIZE) contacts \<noteq> []" by simp
      then obtain b' bs where
        rest: "batches_spec BATCH_SIZE (drop (i + BATCH_SIZE) contacts) = b' # bs"
        using batches_spec_empty_iff [OF pos] by (metis list.exhaust)
      show ?thesis
        using "1.IH" [OF True refl refl refl] more
        by (simp add: dispatchLoop_more unf rest)
    next
      case last: False
      then have e: "batches_spec BATCH_SIZE (drop (i + BATCH_SIZE) contacts) = []" by simp
      show ?thesis
        using True last by (simp add: dispatchLoop_last unf e)
    qed
  qed
qed

lemma batch_calls_append:
  "batch_calls env msg (xs @ ys) = batch_calls env msg xs @ batch_calls env msg ys"
  by (induction xs) (simp_all split: sum.splits)

lemma calls_dispatchLoop_from:
  "filter is_call (trace (dispatchLoop env msg contacts i st)) =
     filter is_call (trace st) @ batch_calls env msg (drop i contacts)"
proof (induction env msg contacts i st rule: dispatchLoop.induct)
  case (1 env msg contacts i st)
  show ?case
  proof (cases "i < length contacts")
    case False
    then show ?thesis by (simp add: dispatchLoop_done)
  next
    case True
    let ?b = "take BATCH_SIZE (drop i contacts)"
    let ?st1 = "processBatch env msg ?b st"
    let ?st2 = "if i + BATCH_SIZE < length contacts
                then ?st1\<lparr>trace := trace ?st1 @ [Sleep 1000]\<rparr> else ?st1"
    have step: "dispatchLoop env msg contacts i st =
                  dispatchLoop env msg contacts (i + BATCH_SIZE) ?st2"
      using True by (subst dispatchLoop.simps) (simp add: Let_def)
    have t2: "filter is_call (trace ?st2) = filter is_call (trace st) @ batch_calls env msg ?b"
      by (simp add: trace_processBatch batch_trace_def)
    have sp: "drop i contacts = ?b @ drop (i + BATCH_SIZE) contacts"
      by (metis add.commute append_take_drop_id drop_drop)
    have "batch_calls env msg (drop i contacts) =
            batch_calls env msg ?b @ batch_calls env msg (drop (i + BATCH_SIZE) contacts)"
      using batch_calls_append [of env msg ?b "drop (i + BATCH_SIZE) contacts"] sp by simp
    then show ?thesis
      unfolding step using "1.IH" [OF True refl refl refl] t2 by simp
  qed
qed

subsection \<open>Claim C4\<close>

text \<open>
  C4. A dispatch that reaches the sending phase always gets a complete outcome from the
  dispatcher (the loop is a total function): the recipients on \<open>sentMessages\<close> and on
  \<open>failedMessages\<close> are, taken together, the input recipients, each exactly once, so
  the sent count plus the failed count is the attempted count. A recipient is failed
  exactly when its own number cannot be prefixed or its own gateway call did not return
  200 (\<open>outcome_spec\<close> decides every recipient on its own), and the calls made are the
  calls of all recipients with a number: no failure stops the remaining sends.
\<close>

theorem dispatcher_complete_outcome:
  "mset (sentMessages (dispatchLoop env msg contacts 0 initial_state)) =
     filter_mset is_sent (mset (outcome_spec env msg 0 contacts)) \<and>
   mset (failedMessages (dispatchLoop env msg contacts 0 initial_state)) =
     filter_mset (\<lambda>m. \<not> is_sent m) (mset (outcome_spec env msg 0 contacts)) \<and>
   map contactId (outcome_spec env msg 0 contacts) = map c_id contacts \<and>
   mset (map contactId (sentMessages (dispatchLoop env msg contacts 0 initial_state) @
                        failedMessages (dispatchLoop env msg contacts 0 initial_state))) =
     mset (map c_id contacts) \<and>
   length (sentMessages (dispatchLoop env msg contacts 0 initial_state)) +
     length (failedMessages (dispatchLoop env msg contacts 0 initial_state)) = length contacts \<and>
   filter is_call (trace (dispatchLoop env msg contacts 0 initial_state)) =
     batch_calls env msg contacts"
proof -
  let ?st = "dispatchLoop env msg contacts 0 initial_state"
  let ?o = "outcome_spec env msg 0 contacts"
  have cc: "callCount initial_state = 0" by (simp add: callCount_def initial_state_def)
  have s: "mset (sentMessages ?st) = filter_mset is_sent (mset ?o)"
    and f: "mset (failedMessages ?st) = filter_mset (\<lambda>m. \<not> is_sent m) (mset ?o)"
    using dispatchLoop_outcome [of env msg contacts 0 initial_state]
    by (simp_all add: cc) (simp_all add: initial_state_def)
  have all: "mset (sentMessages ?st @ failedMessages ?st) = mset ?o"
    by (simp add: s f)
  have ids: "map contactId ?o = map c_id contacts" by (rule outcome_spec_ids)
  have "mset (map contactId (sentMessages ?st @ failedMessages ?st)) = image_mset contactId (mset ?o)"
    using all by (metis mset_map)
  also have "\<dots> = mset (map c_id contacts)" using ids by (metis mset_map)
  finally have perm: "mset (map contactId (sentMessages ?st @ failedMessages ?st)) =
                        mset (map c_id contacts)" .
  have "length (sentMessages ?st @ failedMessages ?st) = length ?o"
    using all by (metis size_mset)
  also have "\<dots> = length contacts" using ids by (metis length_map)
  finally have len: "length (sentMessages ?st) + length (failedMessages ?st) = length contacts"
    by simp
  have calls: "filter is_call (trace ?st) = batch_calls env msg contacts"
    using calls_dispatchLoop_from [of env msg contacts 0 initial_state] by (simp add: initial_state_def)
  from s f ids perm len calls show ?thesis by blast
qed

subsection \<open>Claim C8\<close>

text \<open>
  C8. The dispatcher works through the partition of the recipient list into batches of
  \<open>BATCH_SIZE = 1000\<close>: the batches are not empty, none is longer than 1000, all but
  the last have exactly 1000 recipients, and their concatenation in order is the input
  list. The batches are processed strictly one after the other: every call of a batch
  is issued and has settled before the pause and before the first call of the next batch
  is issued, there is one pause of 1000 ms between two consecutive batches and none
  after the last, and \<open>processBatch\<close> has run to its end on a batch before it starts on
  the next.
\<close>

theorem batches_sequential:
  "trace (dispatchLoop env msg contacts 0 st) =
     trace st @
     sequential_trace env msg (callCount st) (batches_spec BATCH_SIZE contacts) \<and>
   dispatchLoop env msg contacts 0 st =
     run_batches env msg (batches_spec BATCH_SIZE contacts) st \<and>
   concat (batches_spec BATCH_SIZE contacts) = contacts \<and>
   (\<forall>b \<in> set (batches_spec BATCH_SIZE contacts). b \<noteq> [] \<and> length b \<le> 1000) \<and>
   (\<forall>b \<in> set (butlast (batches_spec BATCH_SIZE contacts)). length b = 1000)"
proof -
  have pos: "0 < BATCH_SIZE" by (simp add: BATCH_SIZE_def)
  have t: "trace (dispatchLoop env msg contacts 0 st) =
     trace st @
     sequential_trace env msg (callCount st) (batches_spec BATCH_SIZE contacts)"
    using trace_dispatchLoop [of env msg contacts 0 st] by simp
  have r: "dispatchLoop env msg contacts 0 st =
     run_batches env msg (batches_spec BATCH_SIZE contacts) st"
    using dispatchLoop_run_batches [of env msg contacts 0 st] by simp
  have c: "concat (batches_spec BATCH_SIZE contacts) = contacts"
    by (rule concat_batches_spec [OF pos])
  have s: "\<forall>b \<in> set (batches_spec BATCH_SIZE contacts). b \<noteq> [] \<and> length b \<le> 1000"
    using batches_spec_sizes [OF pos, of _ contacts] by (auto simp: BATCH_SIZE_def)
  have f: "\<forall>b \<in> set (butlast (batches_spec BATCH_SIZE contacts)). length b = 1000"
    using batches_spec_full [OF pos, of _ contacts] by (auto simp: BATCH_SIZE_def)
  from t r c s f show ?thesis by blast
qed

lemma batch_calls_replicate:
  "addPrefixToPhoneNumber env (c_phone c) = Inr number \<Longrightarrow>
   batch_calls env msg (replicate n c) = replicate n (GatewayCall number msg)"
  by (induction n) simp_all

lemma batches_spec_1001:
  "batches_spec BATCH_SIZE (replicate 1001 c) = [replicate 1000 c, [c]]"
proof -
  have "batches_spec 1000 (replicate 1001 c) =
          take 1000 (replicate 1001 c) # batches_spec 1000 (drop 1000 (replicate 1001 c))"
    by (rule batches_spec_step) simp_all
  moreover have "drop 1000 (replicate 1001 c) = [c]" by simp
  moreover have "batches_spec 1000 [c] = [[c]]"
    by (simp add: batches_spec_step)
  ultimately show ?thesis by (simp add: BATCH_SIZE_def)
qed

lemma sequential_trace_1001:
  "sequential_trace env_ok message_hi 0 [replicate 1000 contact_a, [contact_a]] =
     replicate 1000 (GatewayCall ''255700000001'' message_hi) @ map Settled [0 ..< 1000] @
     [Sleep 1000] @ [GatewayCall ''255700000001'' message_hi, Settled 1000]"
proof -
  have p: "addPrefixToPhoneNumber env_ok (c_phone contact_a) = Inr ''255700000001''"
    by (simp add: env_ok_def contact_a_def)
  have l: "latency env_ok = (\<lambda>k. 0)" by (simp add: env_ok_def)
  have b1: "batch_trace env_ok message_hi 0 (replicate 1000 contact_a) =
              replicate 1000 (GatewayCall ''255700000001'' message_hi) @ map Settled [0 ..< 1000]"
    by (simp add: batch_trace_def batch_calls_replicate [OF p] l sort_key_const)
  have b2: "batch_trace env_ok message_hi 1000 [contact_a] =
              [GatewayCall ''255700000001'' message_hi, Settled 1000]"
    by (simp add: batch_trace_def p l sort_key_const)
  show ?thesis
    by (simp only: sequential_trace.simps b1 batch_calls_replicate [OF p] length_replicate)
       (simp add: b2)
qed

theorem batches_sequential_witness:
  "trace (dispatchLoop env_ok message_hi (replicate 1001 contact_a) 0 initial_state) =
     replicate 1000 (GatewayCall ''255700000001'' message_hi) @ map Settled [0 ..< 1000] @
     [Sleep 1000] @ [GatewayCall ''255700000001'' message_hi, Settled 1000] \<and>
   dispatchLoop env_ok message_hi (replicate 1001 contact_a) 0 initial_state =
     processBatch env_ok message_hi [contact_a]
       ((processBatch env_ok message_hi (replicate 1000 contact_a) initial_state)
          \<lparr>trace := trace (processBatch env_ok message_hi (replicate 1000 contact_a)
                             initial_state) @ [Sleep 1000]\<rparr>) \<and>
   concat [replicate 1000 contact_a, [contact_a]] = replicate 1001 contact_a \<and>
   length (replicate 1000 contact_a) \<le> 1000"
proof -
  have c: "callCount initial_state = 0" by (simp add: callCount_def initial_state_def)
  have t: "trace initial_state = []" by (simp add: initial_state_def)
  note w = batches_sequential [of env_ok message_hi "replicate 1001 contact_a" initial_state]
  have 1: "trace (dispatchLoop env_ok message_hi (replicate 1001 contact_a) 0 initial_state) =
     replicate 1000 (GatewayCall ''255700000001'' message_hi) @ map Settled [0 ..< 1000] @
     [Sleep 1000] @ [GatewayCall ''255700000001'' message_hi, Settled 1000]"
    using conjunct1 [OF w] unfolding batches_spec_1001 c t sequential_trace_1001 by simp
  have 2: "dispatchLoop env_ok message_hi (replicate 1001 contact_a) 0 initial_state =
     processBatch env_ok message_hi [contact_a]
       ((processBatch env_ok message_hi (replicate 1000 contact_a) initial_state)
          \<lparr>trace := trace (processBatch env_ok message_hi (replicate 1000 contact_a)
                             initial_state) @ [Sleep 1000]\<rparr>)"
    using conjunct1 [OF conjunct2 [OF w]] unfolding batches_spec_1001 run_batches.simps .
  have 3: "concat [replicate 1000 contact_a, [contact_a]] = replicate 1001 contact_a"
    using conjunct1 [OF conjunct2 [OF conjunct2 [OF w]]] unfolding batches_spec_1001 .
  have 4: "length (replicate 1000 contact_a) \<le> 1000"
    using conjunct1 [OF conjunct2 [OF conjunct2 [OF conjunct2 [OF w]]]]
    unfolding batches_spec_1001 by simp
  from 1 2 3 4 show ?thesis by blast
qed

section \<open>Requests rejected before anything is sent\<close>

lemma dispatchLoop_counts:
  "length (sentMessages (dispatchLoop env msg contacts 0 initial_state)) +
   length (failedMessages (dispatchLoop env msg contacts 0 initial_state)) = length contacts"
proof -
  let ?st = "dispatchLoop env msg contacts 0 initial_state"
  let ?o = "outcome_spec env msg 0 contacts"
  have "mset (sentMessages ?st @ failedMessages ?st) = mset ?o"
    using dispatchLoop_outcome [of env msg contacts 0 initial_state]
    by (simp add: callCount_def initial_state_def)
  then have "length (sentMessages ?st @ failedMessages ?st) = length ?o"
    by (metis size_mset)
  also have "\<dots> = length contacts"
    using outcome_spec_ids [of env msg 0 contacts] by (metis length_map)
  finally show ?thesis by simp
qed

lemma settle_part_001_eq:
  assumes "int n \<le> bal"
  shows "settle_part_001 env cid msg bal n =
     (if n = 0 then Inr (bal, [])
      else case faults env DeductSms of
             Some e \<Rightarrow> Inl e
           | None \<Rightarrow>
               (case faults env CreateHistory of
                  Some e \<Rightarrow> Inl e
                | None \<Rightarrow>
                    Inr (bal - int n,
                         [BalanceWrite cid (bal - int n),
                          HistoryWrite (sent_history env cid msg n)])))"
  using assms
  by (simp add: settle_part_001_def deductSms_def sent_history_def split: option.splits)

lemma part_001_path:
  assumes "request_ok req msg" and "reads_ok env"
    and "resolved_recipients req d = Some contacts"
    and "map_of (balances_tbl d) (req_clientId req) = Some bal"
  shows "sendSms_part_001 env req d =
     (if \<not> hasEnoughBalance bal (length contacts)
      then finish d [] (InsufficientBalance (length contacts) bal)
      else dispatch_part_001 env req msg bal contacts d)"
proof (cases "sendToAll req")
  case True
  with assms(3) have c: "contacts = findAll_client d (req_clientId req)"
    and n: "contacts \<noteq> []" "\<not> length contacts > MAX_SMS_PER_REQUEST"
    by (auto simp: resolved_recipients_def split: if_splits)
  have r: "resolveContacts_part_001 env req d = Inr contacts"
    using True assms(2) c by (simp add: resolveContacts_part_001_def reads_ok_def fetchAllPaged_eq)
  have "sendSms_part_001 env req d = checked_part_001 env req msg (length contacts) d"
    using assms(1,2) True c by (simp add: sendSms_part_001_def request_ok_def reads_ok_def)
  then show ?thesis
    using n assms(2,4) r by (simp add: checked_part_001_def reads_ok_def)
next
  case False
  with assms(3) obtain ids where i: "contactIds req = Some ids"
    and c: "contacts = findAll_ids d ids (req_clientId req)"
    and l: "length contacts = length ids"
    and n: "contacts \<noteq> []" "\<not> length contacts > MAX_SMS_PER_REQUEST"
    by (auto simp: resolved_recipients_def split: if_splits option.splits)
  have r: "resolveContacts_part_001 env req d = Inr contacts"
    using False assms(2) i c l by (simp add: resolveContacts_part_001_def reads_ok_def)
  have "sendSms_part_001 env req d = checked_part_001 env req msg (length contacts) d"
    using assms(1,2) False i l by (simp add: sendSms_part_001_def request_ok_def)
  then show ?thesis
    using n assms(2,4) r by (simp add: checked_part_001_def reads_ok_def)
qed

lemma controller_path:
  assumes "request_ok req msg" and "reads_ok env"
    and "resolved_recipients req d = Some contacts"
  shows "sendSms_controller env req d = dispatch_controller env req msg contacts d"
proof -
  have r: "resolveContacts_controller env req d = Inr contacts"
    and n: "contacts \<noteq> []" "\<not> length contacts > MAX_SMS_PER_REQUEST"
    using assms(2,3)
    by (auto simp: resolved_recipients_def resolveContacts_controller_def reads_ok_def
             split: if_splits option.splits)
  show ?thesis
    using assms(1) r n by (simp add: sendSms_controller_def request_ok_def)
qed

lemma part_002_path:
  assumes "request_ok req msg" and "reads_ok env"
    and "resolved_recipients req d = Some contacts"
  shows "sendSms_part_002 env req d = dispatch_part_002 env req msg contacts d"
proof -
  have r: "resolveContacts_part_002 env req d = Inr contacts"
    and n: "contacts \<noteq> []" "\<not> length contacts > MAX_SMS_PER_REQUEST"
    using assms(2,3)
    by (auto simp: resolved_recipients_def resolveContacts_part_002_def reads_ok_def
             split: if_splits option.splits)
  show ?thesis
    using assms(1) r n by (simp add: sendSms_part_002_def request_ok_def)
qed

lemma js_trim_hi: "js_trim message_hi \<noteq> []"
  by (simp add: js_trim_def js_whitespace_def message_hi_def)

lemma js_trim_nbsp: "js_trim message_nbsp = []"
  by (simp add: js_trim_def js_whitespace_def message_nbsp_def)

text \<open>A message that is only a no-break space is blank for every revision.\<close>

lemma blank_message_rejected:
  assumes "validationOk req" and "message req = Some message_nbsp"
  shows "sendSms_part_001 env req d = finish d [] MessageRequired"
    and "sendSms_controller env req d = finish d [] MessageRequired"
    and "sendSms_part_002 env req d = finish d [] MessageRequired"
  using assms
  by (simp_all add: sendSms_part_001_def sendSms_controller_def sendSms_part_002_def
        js_trim_nbsp)

subsection \<open>Claim C3\<close>

text \<open>
  C3. A request that passes validation and resolves to a recipient list (not empty, not
  above the maximum per request) longer than the balance of the account is rejected by
  every revision with the insufficient-balance response, which reports the number of
  recipients required and the balance available; the call makes no gateway call and
  no write, and the storage is as before.
\<close>

theorem insufficient_balance_rejected:
  assumes "request_ok req msg" and "reads_ok env"
    and "resolved_recipients req d = Some contacts"
    and "map_of (balances_tbl d) (req_clientId req) = Some bal"
    and "bal < int (length contacts)"
  shows "sendSms_part_001 env req d =
           \<lparr>response = InsufficientBalance (length contacts) bal, db_after = d,
            events = [], committed = []\<rparr> \<and>
         sendSms_controller env req d =
           \<lparr>response = InsufficientBalance (length contacts) bal, db_after = d,
            events = [], committed = []\<rparr> \<and>
         sendSms_part_002 env req d =
           \<lparr>response = InsufficientBalance (length contacts) bal, db_after = d,
            events = [], committed = []\<rparr>"
proof -
  have low: "\<not> hasEnoughBalance bal (length contacts)"
    using assms(5) by (simp add: hasEnoughBalance_def)
  have fb: "faults env FindBalance = None" using assms(2) by (simp add: reads_ok_def)
  have a: "sendSms_part_001 env req d = finish d [] (InsufficientBalance (length contacts) bal)"
    using part_001_path [OF assms(1-4)] low by simp
  have b: "sendSms_controller env req d = finish d [] (InsufficientBalance (length contacts) bal)"
    using controller_path [OF assms(1-3)] low fb assms(4) by (simp add: dispatch_controller_def)
  have c: "sendSms_part_002 env req d = finish d [] (InsufficientBalance (length contacts) bal)"
    using part_002_path [OF assms(1-3)] low fb assms(4) by (simp add: dispatch_part_002_def)
  from a b c show ?thesis by (simp add: finish_def)
qed

theorem insufficient_balance_rejected_witness:
  "sendSms_part_001 env_ok (all_request 1) db_ten =
     \<lparr>response = InsufficientBalance 10 2, db_after = db_ten, events = [], committed = []\<rparr> \<and>
   sendSms_controller env_ok (all_request 1) db_ten =
     \<lparr>response = InsufficientBalance 10 2, db_after = db_ten, events = [], committed = []\<rparr> \<and>
   sendSms_part_002 env_ok (all_request 1) db_ten =
     \<lparr>response = InsufficientBalance 10 2, db_after = db_ten, events = [], committed = []\<rparr>"
proof -
  have 1: "request_ok (all_request 1) message_hi"
    by (simp add: request_ok_def all_request_def js_trim_hi)
  have 2: "reads_ok env_ok" by (simp add: reads_ok_def env_ok_def)
  have 3: "resolved_recipients (all_request 1) db_ten = Some (contacts_tbl db_ten)"
    by (simp add: resolved_recipients_def all_request_def db_ten_def findAll_client_def
          MAX_SMS_PER_REQUEST_def)
  have 4: "map_of (balances_tbl db_ten) (req_clientId (all_request 1)) = Some 2"
    by (simp add: db_ten_def all_request_def)
  have 5: "(2::int) < int (length (contacts_tbl db_ten))" by (simp add: db_ten_def)
  have 6: "length (contacts_tbl db_ten) = 10" by (simp add: db_ten_def)
  show ?thesis
    using insufficient_balance_rejected [OF 1 2 3 4 5] by (simp only: 6)
qed

lemma mismatch_single_call:
  assumes "request_ok req msg" and "reads_ok env"
    and "\<not> sendToAll req" and "contactIds req = Some ids"
    and "length (findAll_ids d ids (req_clientId req)) \<noteq> length ids"
  shows "sendSms_controller env req d = finish d [] ContactsMismatch"
    and "sendSms_part_002 env req d = finish d [] ContactsMismatch"
proof -
  have "resolveContacts_controller env req d = Inl ContactsMismatch"
    using assms(2-5) by (simp add: resolveContacts_controller_def reads_ok_def)
  then show "sendSms_controller env req d = finish d [] ContactsMismatch"
    using assms(1) by (simp add: sendSms_controller_def request_ok_def)
  have "resolveContacts_part_002 env req d = Inl ContactsMismatch"
    using assms(2-5) by (simp add: resolveContacts_part_002_def reads_ok_def)
  then show "sendSms_part_002 env req d = finish d [] ContactsMismatch"
    using assms(1) by (simp add: sendSms_part_002_def request_ok_def)
qed

lemma mismatch_batched:
  assumes "request_ok req msg" and "reads_ok env"
    and "\<not> sendToAll req" and "contactIds req = Some ids"
    and "length (findAll_ids d ids (req_clientId req)) \<noteq> length ids"
  shows "sendSms_part_001 env req d =
           finish d []
             (if length ids > MAX_SMS_PER_REQUEST then MaximumExceeded MAX_SMS_PER_REQUEST
              else if map_of (balances_tbl d) (req_clientId req) = None then BalanceNotFound
              else ContactsMismatch)"
proof -
  have r: "resolveContacts_part_001 env req d = Inl ContactsMismatch"
    using assms(2-5) by (simp add: resolveContacts_part_001_def reads_ok_def)
  have "sendSms_part_001 env req d = checked_part_001 env req msg (length ids) d"
    using assms(1,3,4) by (simp add: sendSms_part_001_def request_ok_def)
  then show ?thesis
    using r assms(2) by (auto simp: checked_part_001_def reads_ok_def split: option.splits)
qed

subsection \<open>Claim C6\<close>

text \<open>
  C6. For a request with explicit ids, the contacts fetched are the rows of the contact
  table whose id is among the ids given and whose client is the requesting account. When
  their number differs from the number of ids given, the request is rejected with the
  mismatch response and nothing else happens: no gateway call, no write, storage as
  before. In the revision of \<open>part_001\<close> the fetch comes after the check of the
  maximum per request and the lookup of the balance row, so the mismatch response needs
  both to pass there; the request has no side effect either way.
\<close>

theorem selection_mismatch_rejected:
  assumes "request_ok req msg" and "reads_ok env"
    and "\<not> sendToAll req" and "contactIds req = Some ids"
    and "length (findAll_ids d ids (req_clientId req)) \<noteq> length ids"
  shows "set (findAll_ids d ids (req_clientId req)) =
           {c \<in> set (contacts_tbl d). c_id c \<in> set ids \<and> c_clientId c = req_clientId req} \<and>
         sendSms_controller env req d =
           \<lparr>response = ContactsMismatch, db_after = d, events = [], committed = []\<rparr> \<and>
         sendSms_part_002 env req d =
           \<lparr>response = ContactsMismatch, db_after = d, events = [], committed = []\<rparr> \<and>
         (length ids \<le> MAX_SMS_PER_REQUEST \<and>
          map_of (balances_tbl d) (req_clientId req) \<noteq> None \<longrightarrow>
          sendSms_part_001 env req d =
            \<lparr>response = ContactsMismatch, db_after = d, events = [], committed = []\<rparr>) \<and>
         events (sendSms_part_001 env req d) = [] \<and>
         committed (sendSms_part_001 env req d) = [] \<and>
         db_after (sendSms_part_001 env req d) = d"
proof -
  have f: "set (findAll_ids d ids (req_clientId req)) =
           {c \<in> set (contacts_tbl d). c_id c \<in> set ids \<and> c_clientId c = req_clientId req}"
    by (auto simp: findAll_ids_def)
  note b = mismatch_single_call [OF assms]
  note a = mismatch_batched [OF assms]
  show ?thesis
    using f a b by (simp add: finish_def)
qed

theorem selection_mismatch_rejected_witness:
  "sendSms_controller env_ok (explicit_request 1 [1, 2, 3]) db_demo =
     \<lparr>response = ContactsMismatch, db_after = db_demo, events = [], committed = []\<rparr> \<and>
   sendSms_part_002 env_ok (explicit_request 1 [1, 2, 3]) db_demo =
     \<lparr>response = ContactsMismatch, db_after = db_demo, events = [], committed = []\<rparr> \<and>
   sendSms_part_001 env_ok (explicit_request 1 [1, 2, 3]) db_demo =
     \<lparr>response = ContactsMismatch, db_after = db_demo, events = [], committed = []\<rparr>"
proof -
  have 1: "request_ok (explicit_request 1 [1, 2, 3]) message_hi"
    by (simp add: request_ok_def explicit_request_def js_trim_hi)
  have 2: "reads_ok env_ok" by (simp add: reads_ok_def env_ok_def)
  have 3: "\<not> sendToAll (explicit_request 1 [1, 2, 3])" by (simp add: explicit_request_def)
  have 4: "contactIds (explicit_request 1 [1, 2, 3]) = Some [1, 2, 3]"
    by (simp add: explicit_request_def)
  have 5: "length (findAll_ids db_demo [1, 2, 3] (req_clientId (explicit_request 1 [1, 2, 3])))
             \<noteq> length [1, 2, 3 :: nat]"
    by (simp add: findAll_ids_def db_demo_def explicit_request_def contact_a_def contact_b_def
          contact_c_def)
  have 6: "length [1, 2, 3 :: nat] \<le> MAX_SMS_PER_REQUEST \<and>
           map_of (balances_tbl db_demo) (req_clientId (explicit_request 1 [1, 2, 3])) \<noteq> None"
    by (simp add: MAX_SMS_PER_REQUEST_def db_demo_def explicit_request_def)
  show ?thesis
    using selection_mismatch_rejected [OF 1 2 3 4 5] 6 by simp
qed

lemma duplicate_ids_fetch_fewer:
  assumes "\<not> distinct ids" and "distinct (map c_id (contacts_tbl d))"
  shows "length (findAll_ids d ids cid) < length ids"
proof -
  let ?f = "findAll_ids d ids cid"
  have "distinct (map c_id ?f)"
    using assms(2) by (simp add: findAll_ids_def distinct_map_filter)
  then have "length ?f = card (set (map c_id ?f))"
    by (metis distinct_card length_map)
  also have "\<dots> \<le> card (set ids)"
    by (rule card_mono) (auto simp: findAll_ids_def)
  also have "\<dots> < length ids"
    using assms(1) by (metis card_distinct card_length le_neq_implies_less)
  finally show ?thesis .
qed

subsection \<open>Claim C10\<close>

text \<open>
  C10. A request with explicit ids that lists an id twice is rejected with the mismatch
  response, also when every id listed is a contact of the requesting account: ids are
  unique in the contact table, so fewer rows are fetched than the list is long. (In the
  revision of \<open>part_001\<close>, when the list is within the maximum per request and the
  account has a balance row, which are checked before the fetch there.)
\<close>

theorem duplicate_ids_rejected:
  assumes "request_ok req msg" and "reads_ok env"
    and "\<not> sendToAll req" and "contactIds req = Some ids"
    and "\<not> distinct ids" and "distinct (map c_id (contacts_tbl d))"
  shows "length (findAll_ids d ids (req_clientId req)) < length ids \<and>
         sendSms_controller env req d =
           \<lparr>response = ContactsMismatch, db_after = d, events = [], committed = []\<rparr> \<and>
         sendSms_part_002 env req d =
           \<lparr>response = ContactsMismatch, db_after = d, events = [], committed = []\<rparr> \<and>
         (length ids \<le> MAX_SMS_PER_REQUEST \<and>
          map_of (balances_tbl d) (req_clientId req) \<noteq> None \<longrightarrow>
          sendSms_part_001 env req d =
            \<lparr>response = ContactsMismatch, db_after = d, events = [], committed = []\<rparr>)"
proof -
  have l: "length (findAll_ids d ids (req_clientId req)) < length ids"
    by (rule duplicate_ids_fetch_fewer [OF assms(5,6)])
  then have ne: "length (findAll_ids d ids (req_clientId req)) \<noteq> length ids" by simp
  note b = mismatch_single_call [OF assms(1-4) ne]
  note a = mismatch_batched [OF assms(1-4) ne]
  show ?thesis
    using l a b by (simp add: finish_def)
qed

theorem duplicate_ids_rejected_witness:
  "set [1, 2, 1] \<subseteq> c_id ` set (findAll_client db_demo 1) \<and>
   sendSms_controller env_ok (explicit_request 1 [1, 2, 1]) db_demo =
     \<lparr>response = ContactsMismatch, db_after = db_demo, events = [], committed = []\<rparr> \<and>
   sendSms_part_002 env_ok (explicit_request 1 [1, 2, 1]) db_demo =
     \<lparr>response = ContactsMismatch, db_after = db_demo, events = [], committed = []\<rparr> \<and>
   sendSms_part_001 env_ok (explicit_request 1 [1, 2, 1]) db_demo =
     \<lparr>response = ContactsMismatch, db_after = db_demo, events = [], committed = []\<rparr>"
proof -
  have 0: "set [1, 2, 1] \<subseteq> c_id ` set (findAll_client db_demo 1)"
    by (simp add: findAll_client_def db_demo_def contact_a_def contact_b_def contact_c_def)
  have 1: "request_ok (explicit_request 1 [1, 2, 1]) message_hi"
    by (simp add: request_ok_def explicit_request_def js_trim_hi)
  have 2: "reads_ok env_ok" by (simp add: reads_ok_def env_ok_def)
  have 3: "\<not> sendToAll (explicit_request 1 [1, 2, 1])" by (simp add: explicit_request_def)
  have 4: "contactIds (explicit_request 1 [1, 2, 1]) = Some [1, 2, 1]"
    by (simp add: explicit_request_def)
  have 5: "\<not> distinct [1, 2, 1 :: nat]" by simp
  have 6: "distinct (map c_id (contacts_tbl db_demo))"
    by (simp add: db_demo_def contact_a_def contact_b_def contact_c_def)
  have 7: "length [1, 2, 1 :: nat] \<le> MAX_SMS_PER_REQUEST \<and>
           map_of (balances_tbl db_demo) (req_clientId (explicit_request 1 [1, 2, 1])) \<noteq> None"
    by (simp add: MAX_SMS_PER_REQUEST_def db_demo_def explicit_request_def)
  show ?thesis
    using duplicate_ids_rejected [OF 1 2 3 4 5 6] 0 7 by simp
qed

section \<open>The single-call revisions\<close>

lemma js_success_False [simp]: "\<not> js_success r"
  by (cases r) simp_all

lemma settle_controller_eq:
  assumes "int n \<le> bal"
  shows "settle_controller env cid msg bal n r =
     (case faults env DeductSms of
        Some e \<Rightarrow> Inl e
      | None \<Rightarrow>
          (case faults env CreateHistory of
             Some e \<Rightarrow> Inl e
           | None \<Rightarrow>
               Inr (bal - int n,
                    [BalanceWrite cid (bal - int n),
                     HistoryWrite (failed_history env cid msg n)])))"
  using assms
  by (simp add: settle_controller_def deductSms_def failed_history_def split: option.splits)

lemma settle_part_002_eq: "settle_part_002 = settle_controller"
  by (intro ext) (simp add: settle_part_002_def settle_controller_def)

lemma resolveContacts_part_002_eq: "resolveContacts_part_002 = resolveContacts_controller"
  by (intro ext) (simp add: resolveContacts_part_002_def resolveContacts_controller_def)

lemma dispatch_part_002_eq: "dispatch_part_002 = dispatch_controller"
  by (intro ext) (simp only: dispatch_part_002_def dispatch_controller_def settle_part_002_eq)

lemma sendSms_part_002_eq: "sendSms_part_002 = sendSms_controller"
  by (intro ext)
     (simp only: sendSms_part_002_def sendSms_controller_def dispatch_part_002_eq
        resolveContacts_part_002_eq)

lemma dispatch_controller_ok:
  assumes "faults env FindBalance = None" and "writes_ok env"
    and "map_of (balances_tbl d) (req_clientId req) = Some bal"
    and "int (length contacts) \<le> bal"
    and "prefixAll env contacts = Inr prefixed"
  shows "dispatch_controller env req msg contacts d =
     \<lparr>response = CompletedBulk (length contacts) ''failed''
                   (sendSMS env 0 (join_comma prefixed) msg) (bal - int (length contacts)),
      db_after = commit d [BalanceWrite (req_clientId req) (bal - int (length contacts)),
                           HistoryWrite (failed_history env (req_clientId req) msg (length contacts))],
      events = [GatewayCall (join_comma prefixed) msg, Settled 0],
      committed = [BalanceWrite (req_clientId req) (bal - int (length contacts)),
                   HistoryWrite (failed_history env (req_clientId req) msg (length contacts))]\<rparr>"
  using assms
  by (simp add: dispatch_controller_def settle_controller_eq writes_ok_def hasEnoughBalance_def
        Let_def)

lemma single_call_status_failed:
  "(\<forall>h. HistoryWrite h \<in> set (committed (sendSms_controller env req d)) \<longrightarrow>
        hist_status h = ''failed'') \<and>
   (\<forall>n s g b. response (sendSms_controller env req d) = CompletedBulk n s g b \<longrightarrow>
        s = ''failed'')"
  by (auto simp: sendSms_controller_def dispatch_controller_def settle_controller_def
        resolveContacts_controller_def finish_def Let_def
      split: option.splits sum.splits if_splits prod.splits)

subsection \<open>Claim C9\<close>

text \<open>
  C9. In the two revisions that make one gateway call for all recipients
  (\<open>smsController.js\<close> and \<open>part_002\<close>), a dispatch that is committed reports the
  status "failed" and commits a history row with the status "failed", whatever the
  gateway did (any HTTP status, 200 included, or a transport error): \<open>sendSMS\<close> returns
  a number or an error object, and the \<open>success\<close> property the controller reads is on
  neither. The last two parts hold for every request and storage: no history row of
  another status is ever committed, no other status ever reported.
\<close>

theorem single_call_status_always_failed:
  assumes "request_ok req msg" and "reads_ok env" and "writes_ok env"
    and "resolved_recipients req d = Some contacts"
    and "map_of (balances_tbl d) (req_clientId req) = Some bal"
    and "int (length contacts) \<le> bal"
    and "prefixAll env contacts = Inr prefixed"
  shows "response (sendSms_controller env req d) =
           CompletedBulk (length contacts) ''failed''
             (sendSMS env 0 (join_comma prefixed) msg) (bal - int (length contacts)) \<and>
         committed (sendSms_controller env req d) =
           [BalanceWrite (req_clientId req) (bal - int (length contacts)),
            HistoryWrite
              \<lparr>hist_clientId = req_clientId req, hist_message = msg,
               recipientCount = length contacts, smsUsed = length contacts,
               hist_status = ''failed'', createdAt = now env\<rparr>] \<and>
         sendSms_part_002 env req d = sendSms_controller env req d \<and>
         (\<forall>h. HistoryWrite h \<in> set (committed (sendSms_controller env req' d')) \<longrightarrow>
              hist_status h = ''failed'') \<and>
         (\<forall>n s g b. response (sendSms_controller env req' d') = CompletedBulk n s g b \<longrightarrow>
              s = ''failed'')"
proof -
  have fb: "faults env FindBalance = None" using assms(2) by (simp add: reads_ok_def)
  have "sendSms_controller env req d = dispatch_controller env req msg contacts d"
    by (rule controller_path [OF assms(1,2,4)])
  then have r: "sendSms_controller env req d =
     \<lparr>response = CompletedBulk (length contacts) ''failed''
                   (sendSMS env 0 (join_comma prefixed) msg) (bal - int (length contacts)),
      db_after = commit d [BalanceWrite (req_clientId req) (bal - int (length contacts)),
                           HistoryWrite (failed_history env (req_clientId req) msg (length contacts))],
      events = [GatewayCall (join_comma prefixed) msg, Settled 0],
      committed = [BalanceWrite (req_clientId req) (bal - int (length contacts)),
                   HistoryWrite (failed_history env (req_clientId req) msg (length contacts))]\<rparr>"
    using dispatch_controller_ok [OF fb assms(3,5,6,7)] by simp
  have 1: "response (sendSms_controller env req d) =
           CompletedBulk (length contacts) ''failed''
             (sendSMS env 0 (join_comma prefixed) msg) (bal - int (length contacts))"
    by (simp add: r)
  have 2: "committed (sendSms_controller env req d) =
           [BalanceWrite (req_clientId req) (bal - int (length contacts)),
            HistoryWrite
              \<lparr>hist_clientId = req_clientId req, hist_message = msg,
               recipientCount = length contacts, smsUsed = length contacts,
               hist_status = ''failed'', createdAt = now env\<rparr>]"
    by (simp add: r failed_history_def)
  have 3: "sendSms_part_002 env req d = sendSms_controller env req d"
    by (simp add: sendSms_part_002_eq)
  from 1 2 3 single_call_status_failed [of env req' d'] show ?thesis by blast
qed

lemma demo_resolved:
  "resolved_recipients (explicit_request 1 [1, 2]) db_demo = Some [contact_a, contact_b]"
  by (simp add: resolved_recipients_def explicit_request_def db_demo_def findAll_ids_def
        contact_a_def contact_b_def contact_c_def MAX_SMS_PER_REQUEST_def)

lemma demo_request_ok: "request_ok (explicit_request cid ids) message_hi"
  by (simp add: request_ok_def explicit_request_def js_trim_hi)

lemma demo_balance:
  "map_of (balances_tbl db_demo) (req_clientId (explicit_request 1 ids)) = Some 5"
  by (simp add: db_demo_def explicit_request_def)

lemma demo_prefixAll:
  "addPrefixToPhoneNumber env = (\<lambda>p. Inr (''255'' @ p)) \<Longrightarrow>
   prefixAll env [contact_a, contact_b] = Inr [''255700000001'', ''255700000002'']"
  by (simp add: contact_a_def contact_b_def)

theorem single_call_status_always_failed_witness:
  "gateway env_ok 0 ''255700000001,255700000002'' message_hi = HttpStatus 200 \<and>
   response (sendSms_controller env_ok (explicit_request 1 [1, 2]) db_demo) =
     CompletedBulk 2 ''failed'' (Number 200) 3 \<and>
   committed (sendSms_controller env_ok (explicit_request 1 [1, 2]) db_demo) =
     [BalanceWrite 1 3,
      HistoryWrite
        \<lparr>hist_clientId = 1, hist_message = message_hi, recipientCount = 2, smsUsed = 2,
         hist_status = ''failed'', createdAt = 7\<rparr>] \<and>
   sendSms_part_002 env_ok (explicit_request 1 [1, 2]) db_demo =
     sendSms_controller env_ok (explicit_request 1 [1, 2]) db_demo"
proof -
  have 2: "reads_ok env_ok" by (simp add: reads_ok_def env_ok_def)
  have 3: "writes_ok env_ok" by (simp add: writes_ok_def env_ok_def)
  have 6: "int (length [contact_a, contact_b]) \<le> 5" by simp
  have 7: "prefixAll env_ok [contact_a, contact_b] = Inr [''255700000001'', ''255700000002'']"
    by (rule demo_prefixAll) (simp add: env_ok_def)
  have g: "gateway env_ok 0 ''255700000001,255700000002'' message_hi = HttpStatus 200"
    by (simp add: env_ok_def)
  show ?thesis
    using single_call_status_always_failed
            [OF demo_request_ok 2 3 demo_resolved demo_balance 6 7] g
    by (simp add: sendSMS_def explicit_request_def env_ok_def)
qed

section \<open>Concrete runs\<close>

lemma demo_loop_mixed:
  "dispatchLoop env_mixed message_hi [contact_a, contact_b] 0 initial_state =
     \<lparr>sentMessages = [sent_detail contact_a],
      failedMessages = [failed_detail contact_b ''Unknown error''],
      trace = [GatewayCall ''255700000001'' message_hi,
       GatewayCall ''255700000002'' message_hi, Settled 1, Settled 0]\<rparr>"
  by (simp add: dispatchLoop_last BATCH_SIZE_def processBatch_def initial_state_def
        env_mixed_def contact_a_def contact_b_def callCount_def sendSMS_def settleCall_def)

lemma demo_loop_down:
  "dispatchLoop env_down message_hi [contact_a, contact_b] 0 initial_state =
     \<lparr>sentMessages = [],
      failedMessages = [failed_detail contact_a ''Unknown error'',
                        failed_detail contact_b ''Unknown error''],
      trace = [GatewayCall ''255700000001'' message_hi,
       GatewayCall ''255700000002'' message_hi, Settled 0, Settled 1]\<rparr>"
  by (simp add: dispatchLoop_last BATCH_SIZE_def processBatch_def initial_state_def
        env_down_def contact_a_def contact_b_def callCount_def sendSMS_def settleCall_def)

lemma demo_loop_ok:
  "dispatchLoop env_commit_fails message_hi [contact_a, contact_b] 0 initial_state =
     \<lparr>sentMessages = [sent_detail contact_a, sent_detail contact_b],
      failedMessages = [],
      trace = [GatewayCall ''255700000001'' message_hi,
       GatewayCall ''255700000002'' message_hi, Settled 0, Settled 1]\<rparr>"
  by (simp add: dispatchLoop_last BATCH_SIZE_def processBatch_def initial_state_def
        env_commit_fails_def contact_a_def contact_b_def callCount_def sendSMS_def settleCall_def)

section \<open>The shape of every result of the batched revision\<close>

lemma dispatch_part_001_eq:
  assumes "int (length contacts) \<le> bal"
  shows "dispatch_part_001 env req msg bal contacts d =
     (let st = dispatchLoop env msg contacts 0 initial_state;
          s = length (sentMessages st);
          ws = [BalanceWrite (req_clientId req) (bal - int s),
                HistoryWrite (sent_history env (req_clientId req) msg s)]
      in if s = 0 then
           (case faults env Commit of
              Some e \<Rightarrow> finish d (trace st) (ServerError e)
            | None \<Rightarrow>
                \<lparr>response = CompletedBatched (length contacts) 0 (length (failedMessages st)) 0
                              bal [] (failedMessages st),
                 db_after = d, events = trace st, committed = []\<rparr>)
         else
           (case faults env DeductSms of
              Some e \<Rightarrow> finish d (trace st) (ServerError e)
            | None \<Rightarrow>
                (case faults env CreateHistory of
                   Some e \<Rightarrow> finish d (trace st) (ServerError e)
                 | None \<Rightarrow>
                     (case faults env Commit of
                        Some e \<Rightarrow> finish d (trace st) (ServerError e)
                      | None \<Rightarrow>
                          \<lparr>response = CompletedBatched (length contacts) s
                                        (length (failedMessages st)) s (bal - int s)
                                        (sentMessages st) (failedMessages st),
                           db_after = commit d ws, events = trace st, committed = ws\<rparr>))))"
proof -
  let ?st = "dispatchLoop env msg contacts 0 initial_state"
  have "length (sentMessages ?st) \<le> length contacts"
    using dispatchLoop_counts [of env msg contacts] by simp
  with assms have le: "int (length (sentMessages ?st)) \<le> bal" by simp
  show ?thesis
    by (simp add: dispatch_part_001_def settle_part_001_eq [OF le] Let_def commit_def
          split: option.splits)
qed

lemma resolve_part_001_Inl:
  "resolveContacts_part_001 env req d = Inl r \<Longrightarrow> \<not> is_completed r"
  by (auto simp: resolveContacts_part_001_def Let_def split: option.splits if_splits)

lemma checked_part_001_cases:
  "(\<exists>resp. checked_part_001 env req msg n d = finish d [] resp \<and> \<not> is_completed resp) \<or>
   (\<exists>bal contacts.
      map_of (balances_tbl d) (req_clientId req) = Some bal \<and>
      int (length contacts) \<le> bal \<and> contacts \<noteq> [] \<and>
      checked_part_001 env req msg n d = dispatch_part_001 env req msg bal contacts d)"
proof (cases "n > MAX_SMS_PER_REQUEST")
  case True
  then have "checked_part_001 env req msg n d = finish d [] (MaximumExceeded MAX_SMS_PER_REQUEST)"
    by (simp add: checked_part_001_def)
  then show ?thesis by auto
next
  case small: False
  show ?thesis
  proof (cases "faults env FindBalance")
    case (Some e)
    with small have "checked_part_001 env req msg n d = finish d [] (ServerError e)"
      by (simp add: checked_part_001_def)
    then show ?thesis by auto
  next
    case None
    show ?thesis
    proof (cases "map_of (balances_tbl d) (req_clientId req)")
      case nb: None
      with small None have "checked_part_001 env req msg n d = finish d [] BalanceNotFound"
        by (simp add: checked_part_001_def)
      then show ?thesis by auto
    next
      case (Some bal)
      show ?thesis
      proof (cases "resolveContacts_part_001 env req d")
        case (Inl r)
        with small None Some have "checked_part_001 env req msg n d = finish d [] r"
          by (simp add: checked_part_001_def)
        with resolve_part_001_Inl [OF Inl] show ?thesis by auto
      next
        case (Inr contacts)
        show ?thesis
        proof (cases "contacts = []")
          case True
          with small None Some Inr
          have "checked_part_001 env req msg n d = finish d [] NoContactsFound"
            by (simp add: checked_part_001_def)
          then show ?thesis by auto
        next
          case ne: False
          show ?thesis
          proof (cases "hasEnoughBalance bal (length contacts)")
            case False
            with small None Some Inr ne
            have "checked_part_001 env req msg n d =
                    finish d [] (InsufficientBalance (length contacts) bal)"
              by (simp add: checked_part_001_def)
            then show ?thesis by auto
          next
            case True
            with small None Some Inr ne
            have "checked_part_001 env req msg n d =
                    dispatch_part_001 env req msg bal contacts d"
              by (simp add: checked_part_001_def)
            moreover from True have "int (length contacts) \<le> bal"
              by (simp add: hasEnoughBalance_def)
            ultimately show ?thesis using Some ne by blast
          qed
        qed
      qed
    qed
  qed
qed

lemma sendSms_part_001_cases:
  "(\<exists>resp. sendSms_part_001 env req d = finish d [] resp \<and> \<not> is_completed resp) \<or>
   (\<exists>msg bal contacts.
      map_of (balances_tbl d) (req_clientId req) = Some bal \<and>
      int (length contacts) \<le> bal \<and> contacts \<noteq> [] \<and>
      sendSms_part_001 env req d = dispatch_part_001 env req msg bal contacts d)"
proof -
  have fin: "\<And>resp. \<not> is_completed resp \<Longrightarrow> sendSms_part_001 env req d = finish d [] resp \<Longrightarrow>
             ?thesis" by blast
  have chk: "\<And>msg n. sendSms_part_001 env req d = checked_part_001 env req msg n d \<Longrightarrow> ?thesis"
    using checked_part_001_cases [of env req _ _ d] by metis
  show ?thesis
  proof (cases "validationOk req")
    case False
    then show ?thesis by (intro fin [of ValidationErrors]) (simp_all add: sendSms_part_001_def)
  next
    case True
    show ?thesis
    proof (cases "message req")
      case None
      with True show ?thesis
        by (intro fin [of MessageRequired]) (simp_all add: sendSms_part_001_def)
    next
      case (Some msg)
      show ?thesis
      proof (cases "js_trim msg = []")
        case blank: True
        with True Some show ?thesis
          by (intro fin [of MessageRequired]) (simp_all add: sendSms_part_001_def)
      next
        case False
        show ?thesis
        proof (cases "sendToAll req")
          case all: True
          show ?thesis
          proof (cases "faults env CountContacts")
            case None
            with True Some False all show ?thesis
              by (intro chk [of msg "length (findAll_client d (req_clientId req))"])
                 (simp add: sendSms_part_001_def)
          next
            case (Some e)
            with True \<open>message req = Some msg\<close> False all show ?thesis
              by (intro fin [of "ServerError e"]) (simp_all add: sendSms_part_001_def)
          qed
        next
          case explicit: False
          show ?thesis
          proof (cases "contactIds req")
            case None
            with True Some False explicit show ?thesis
              by (intro fin [of ContactIdsRequired]) (simp_all add: sendSms_part_001_def)
          next
            case (Some ids)
            with True \<open>message req = Some msg\<close> False explicit show ?thesis
              by (intro chk [of msg "length ids"]) (simp add: sendSms_part_001_def)
          qed
        qed
      qed
    qed
  qed
qed

section \<open>The debit and the history row are one atomic unit\<close>

lemma finish_atomic: "atomic_outcome env req d (finish d evs resp)"
  by (simp add: atomic_outcome_def finish_def)

lemma dispatch_part_001_atomic:
  assumes "int (length contacts) \<le> bal"
  shows "atomic_outcome env req d (dispatch_part_001 env req msg bal contacts d)"
  unfolding dispatch_part_001_eq [OF assms]
  by (simp add: atomic_outcome_def finish_def Let_def commit_def writes_ok_def
        split: option.splits)

lemma sendSms_part_001_atomic: "atomic_outcome env req d (sendSms_part_001 env req d)"
  using sendSms_part_001_cases [of env req d] finish_atomic dispatch_part_001_atomic
  by metis

lemma dispatch_controller_atomic:
  "atomic_outcome env req d (dispatch_controller env req msg contacts d)"
  by (auto simp: dispatch_controller_def settle_controller_def atomic_outcome_def finish_def
        Let_def commit_def writes_ok_def
      split: option.splits sum.splits prod.splits)

lemma sendSms_controller_atomic: "atomic_outcome env req d (sendSms_controller env req d)"
  using dispatch_controller_atomic [of env req d]
  by (simp add: sendSms_controller_def finish_atomic split: option.splits sum.splits)

subsection \<open>Claim C2\<close>

text \<open>
  C2. In every revision and for every request, environment and storage, a call of
  \<open>sendSms\<close> commits either nothing, leaving the storage as it was, or exactly the
  debit of the account's balance row followed by one history row, both written to the
  storage together. When the debit, the history write or the commit throws, nothing is
  committed and the storage is as it was.
\<close>

theorem debit_and_history_atomic:
  "atomic_outcome env req d (sendSms_part_001 env req d) \<and>
   atomic_outcome env req d (sendSms_controller env req d) \<and>
   atomic_outcome env req d (sendSms_part_002 env req d)"
  using sendSms_part_001_atomic [of env req d] sendSms_controller_atomic [of env req d]
  by (simp add: sendSms_part_002_eq)

lemma demo_part_001_commit_fails:
  "sendSms_part_001 env_commit_fails (explicit_request 1 [1, 2]) db_demo =
     finish db_demo [GatewayCall ''255700000001'' message_hi,
       GatewayCall ''255700000002'' message_hi, Settled 0, Settled 1]
       (ServerError ''commit failed'')"
proof -
  have 2: "reads_ok env_commit_fails" by (simp add: reads_ok_def env_commit_fails_def)
  have "sendSms_part_001 env_commit_fails (explicit_request 1 [1, 2]) db_demo =
          dispatch_part_001 env_commit_fails (explicit_request 1 [1, 2]) message_hi 5
            [contact_a, contact_b] db_demo"
    using part_001_path [OF demo_request_ok 2 demo_resolved demo_balance]
    by (simp add: hasEnoughBalance_def)
  also have "\<dots> = finish db_demo
       [GatewayCall ''255700000001'' message_hi,
       GatewayCall ''255700000002'' message_hi, Settled 0, Settled 1]
       (ServerError ''commit failed'')"
    by (simp add: dispatch_part_001_eq demo_loop_ok) (simp add: env_commit_fails_def)
  finally show ?thesis .
qed

theorem debit_and_history_atomic_witness:
  "\<not> writes_ok env_commit_fails \<and>
   response (sendSms_part_001 env_commit_fails (explicit_request 1 [1, 2]) db_demo) =
     ServerError ''commit failed'' \<and>
   events (sendSms_part_001 env_commit_fails (explicit_request 1 [1, 2]) db_demo) =
     [GatewayCall ''255700000001'' message_hi,
       GatewayCall ''255700000002'' message_hi, Settled 0, Settled 1] \<and>
   committed (sendSms_part_001 env_commit_fails (explicit_request 1 [1, 2]) db_demo) = [] \<and>
   db_after (sendSms_part_001 env_commit_fails (explicit_request 1 [1, 2]) db_demo) = db_demo \<and>
   committed (sendSms_controller env_commit_fails (explicit_request 1 [1, 2]) db_demo) = [] \<and>
   db_after (sendSms_controller env_commit_fails (explicit_request 1 [1, 2]) db_demo) = db_demo \<and>
   committed (sendSms_part_002 env_commit_fails (explicit_request 1 [1, 2]) db_demo) = [] \<and>
   db_after (sendSms_part_002 env_commit_fails (explicit_request 1 [1, 2]) db_demo) = db_demo"
proof -
  have w: "\<not> writes_ok env_commit_fails" by (simp add: writes_ok_def env_commit_fails_def)
  have r: "response (sendSms_part_001 env_commit_fails (explicit_request 1 [1, 2]) db_demo) =
             ServerError ''commit failed''"
    and e: "events (sendSms_part_001 env_commit_fails (explicit_request 1 [1, 2]) db_demo) =
             [GatewayCall ''255700000001'' message_hi,
       GatewayCall ''255700000002'' message_hi, Settled 0, Settled 1]"
    unfolding demo_part_001_commit_fails by (simp_all add: finish_def)
  show ?thesis
    using debit_and_history_atomic [of env_commit_fails "explicit_request 1 [1, 2]" db_demo] w r e
    unfolding atomic_outcome_def by blast
qed

section \<open>The balance after dispatches of the batched revision\<close>

lemma not_completed_sentCount: "\<not> is_completed r \<Longrightarrow> sentCount_of r = 0"
  by (cases r) simp_all

lemma map_of_commit_pair:
  "map_of (balances_tbl (commit d [BalanceWrite c b, HistoryWrite h])) = (map_of (balances_tbl d))(c \<mapsto> b)"
  by (simp add: commit_def update_conv')

lemma dispatch_part_001_balance:
  assumes "int (length contacts) \<le> bal"
    and "map_of (balances_tbl d) (req_clientId req) = Some bal"
  shows "map_of (balances_tbl (db_after (dispatch_part_001 env req msg bal contacts d))) =
           (map_of (balances_tbl d))
             (req_clientId req \<mapsto>
                bal - int (sentCount_of (response (dispatch_part_001 env req msg bal contacts d))))"
proof -
  have triv: "(map_of (balances_tbl d))(req_clientId req \<mapsto> bal) = map_of (balances_tbl d)"
    using assms(2) by (simp add: map_upd_triv)
  show ?thesis
    unfolding dispatch_part_001_eq [OF assms(1)]
    by (simp add: Let_def finish_def triv map_of_commit_pair split: option.splits)
qed

lemma part_001_balance_step:
  "map_of (balances_tbl (db_after (sendSms_part_001 env req d))) c =
     map_option
       (\<lambda>b. b - int (if req_clientId req = c
                      then sentCount_of (response (sendSms_part_001 env req d)) else 0))
       (map_of (balances_tbl d) c)"
proof -
  from sendSms_part_001_cases [of env req d]
  consider (rejected) resp where
      "sendSms_part_001 env req d = finish d [] resp" "\<not> is_completed resp"
    | (dispatched) msg bal contacts where
      "map_of (balances_tbl d) (req_clientId req) = Some bal"
      "int (length contacts) \<le> bal"
      "sendSms_part_001 env req d = dispatch_part_001 env req msg bal contacts d"
    by blast
  then show ?thesis
  proof cases
    case rejected
    then show ?thesis
      by (simp add: finish_def not_completed_sentCount option.map_ident)
  next
    case dispatched
    show ?thesis
      unfolding dispatched(3)
      using dispatch_part_001_balance [OF dispatched(2,1), of env msg] dispatched(1)
      by (cases "map_of (balances_tbl d) c") auto
  qed
qed

lemma run_sequence_balance:
  "map_of (balances_tbl (fst (run_sequence_part_001 c rs d))) c =
     map_option (\<lambda>b. b - int (snd (run_sequence_part_001 c rs d))) (map_of (balances_tbl d) c)"
proof (induction rs arbitrary: d)
  case Nil
  then show ?case by (simp add: option.map_ident)
next
  case (Cons er rs)
  obtain env req where er: "er = (env, req)" by (cases er)
  let ?r = "sendSms_part_001 env req d"
  obtain d' n where run: "run_sequence_part_001 c rs (db_after ?r) = (d', n)"
    by (cases "run_sequence_part_001 c rs (db_after ?r)")
  have ih: "map_of (balances_tbl d') c =
              map_option (\<lambda>b. b - int n) (map_of (balances_tbl (db_after ?r)) c)"
    using Cons.IH [of "db_after ?r"] run by simp
  show ?case
    by (cases "map_of (balances_tbl d) c")
       (simp_all add: er run ih part_001_balance_step Let_def)
qed

lemma part_001_completed:
  assumes "response (sendSms_part_001 env req d) = CompletedBatched t s f u rem sm fm"
  shows "s = length sm \<and> u = s \<and> s + f = t \<and>
         map_of (balances_tbl (db_after (sendSms_part_001 env req d))) (req_clientId req) = Some rem \<and>
         map_of (balances_tbl d) (req_clientId req) = Some (rem + int s)"
proof -
  from sendSms_part_001_cases [of env req d]
  consider (rejected) resp where
      "sendSms_part_001 env req d = finish d [] resp" "\<not> is_completed resp"
    | (dispatched) msg bal contacts where
      "map_of (balances_tbl d) (req_clientId req) = Some bal"
      "int (length contacts) \<le> bal"
      "sendSms_part_001 env req d = dispatch_part_001 env req msg bal contacts d"
    by blast
  then show ?thesis
  proof cases
    case rejected
    with assms show ?thesis by (simp add: finish_def)
  next
    case dispatched
    let ?st = "dispatchLoop env msg contacts 0 initial_state"
    have cnt: "length (sentMessages ?st) + length (failedMessages ?st) = length contacts"
      by (rule dispatchLoop_counts)
    have triv: "(map_of (balances_tbl d))(req_clientId req \<mapsto> bal) = map_of (balances_tbl d)"
      using dispatched(1) by (simp add: map_upd_triv)
    from assms have "response (dispatch_part_001 env req msg bal contacts d) =
                       CompletedBatched t s f u rem sm fm"
      by (simp add: dispatched(3))
    then have "s = length sm \<and> u = s \<and> s + f = t \<and> rem = bal - int s \<and>
               map_of (balances_tbl (db_after (dispatch_part_001 env req msg bal contacts d)))
                 (req_clientId req) = Some rem"
      unfolding dispatch_part_001_eq [OF dispatched(2)]
      using cnt dispatched(1)
      by (auto simp: Let_def finish_def map_of_commit_pair split: option.splits if_splits)
    then show ?thesis using dispatched(1,3) by simp
  qed
qed

lemma single_call_balance_after:
  assumes "request_ok req msg" and "reads_ok env" and "writes_ok env"
    and "resolved_recipients req d = Some contacts"
    and "map_of (balances_tbl d) (req_clientId req) = Some bal"
    and "int (length contacts) \<le> bal"
    and "prefixAll env contacts = Inr prefixed"
  shows "map_of (balances_tbl (db_after (sendSms_controller env req d))) (req_clientId req) =
           Some (bal - int (length contacts))"
    and "map_of (balances_tbl (db_after (sendSms_part_002 env req d))) (req_clientId req) =
           Some (bal - int (length contacts))"
proof -
  have fb: "faults env FindBalance = None" using assms(2) by (simp add: reads_ok_def)
  have "sendSms_controller env req d = dispatch_controller env req msg contacts d"
    by (rule controller_path [OF assms(1,2,4)])
  then show "map_of (balances_tbl (db_after (sendSms_controller env req d))) (req_clientId req) =
           Some (bal - int (length contacts))"
    using dispatch_controller_ok [OF fb assms(3,5,6,7), of msg]
    by (simp add: map_of_commit_pair)
  then show "map_of (balances_tbl (db_after (sendSms_part_002 env req d))) (req_clientId req) =
           Some (bal - int (length contacts))"
    by (simp add: sendSms_part_002_eq)
qed

subsection \<open>Claim C1\<close>

text \<open>
  C1, as amended. In the batched revision (\<open>part_001\<close>), every committed dispatch
  debits the balance of the account by exactly the number of recipients on
  \<open>sentMessages\<close> (not by the number attempted): after any sequence of calls of
  \<open>sendSms\<close>, with any requests and environments, the balance of an account is its
  initial balance minus the sum of the sent counts of the committed dispatches of that
  account, and the \<open>remainingBalance\<close> of a completed response is the balance after
  the debit. In the single-call revisions a committed dispatch debits the number of
  recipients attempted, whatever the gateway answered.
\<close>

theorem debit_is_sent_count_part_001:
  assumes "map_of (balances_tbl d) c = Some initial"
  shows "map_of (balances_tbl (fst (run_sequence_part_001 c rs d))) c =
           Some (initial - int (snd (run_sequence_part_001 c rs d))) \<and>
         map_of (balances_tbl (db_after (sendSms_part_001 env req d))) c =
           Some (initial - int (if req_clientId req = c
                                then sentCount_of (response (sendSms_part_001 env req d)) else 0)) \<and>
         (\<forall>t s f u rem sm fm.
            response (sendSms_part_001 env req d) = CompletedBatched t s f u rem sm fm \<longrightarrow>
            s = length sm \<and> u = s \<and>
            map_of (balances_tbl (db_after (sendSms_part_001 env req d))) (req_clientId req) =
              Some rem \<and>
            map_of (balances_tbl d) (req_clientId req) = Some (rem + int s)) \<and>
         (request_ok req msg \<and> reads_ok env \<and> writes_ok env \<and>
          resolved_recipients req d = Some contacts \<and>
          map_of (balances_tbl d) (req_clientId req) = Some bal \<and>
          int (length contacts) \<le> bal \<and> prefixAll env contacts = Inr prefixed \<longrightarrow>
          map_of (balances_tbl (db_after (sendSms_controller env req d))) (req_clientId req) =
            Some (bal - int (length contacts)) \<and>
          map_of (balances_tbl (db_after (sendSms_part_002 env req d))) (req_clientId req) =
            Some (bal - int (length contacts)))"
proof -
  have 1: "map_of (balances_tbl (fst (run_sequence_part_001 c rs d))) c =
           Some (initial - int (snd (run_sequence_part_001 c rs d)))"
    using run_sequence_balance [of c rs d] assms by simp
  have 2: "map_of (balances_tbl (db_after (sendSms_part_001 env req d))) c =
           Some (initial - int (if req_clientId req = c
                                then sentCount_of (response (sendSms_part_001 env req d)) else 0))"
    using part_001_balance_step [of env req d c] assms by simp
  from 1 2 part_001_completed [of env req d]
    single_call_balance_after [of req msg env d contacts bal prefixed]
  show ?thesis by blast
qed

lemma demo_loop_env_ok:
  "dispatchLoop env_ok message_hi [contact_a, contact_b] 0 initial_state =
     \<lparr>sentMessages = [sent_detail contact_a, sent_detail contact_b],
      failedMessages = [],
      trace = [GatewayCall ''255700000001'' message_hi,
       GatewayCall ''255700000002'' message_hi, Settled 0, Settled 1]\<rparr>"
  by (simp add: dispatchLoop_last BATCH_SIZE_def processBatch_def initial_state_def
        env_ok_def contact_a_def contact_b_def callCount_def sendSMS_def settleCall_def)

lemma demo_resolved_any:
  "contacts_tbl d = [contact_a, contact_b, contact_c] \<Longrightarrow>
   resolved_recipients (explicit_request 1 [1, 2]) d = Some [contact_a, contact_b]"
  by (simp add: resolved_recipients_def explicit_request_def findAll_ids_def
        contact_a_def contact_b_def contact_c_def MAX_SMS_PER_REQUEST_def)

lemma demo_part_001_path:
  assumes "contacts_tbl d = [contact_a, contact_b, contact_c]"
    and "map_of (balances_tbl d) 1 = Some bal" and "2 \<le> bal" and "reads_ok env"
  shows "sendSms_part_001 env (explicit_request 1 [1, 2]) d =
           dispatch_part_001 env (explicit_request 1 [1, 2]) message_hi bal [contact_a, contact_b] d"
proof -
  have b: "map_of (balances_tbl d) (req_clientId (explicit_request 1 [1, 2])) = Some bal"
    using assms(2) by (simp add: explicit_request_def)
  show ?thesis
    using part_001_path [OF demo_request_ok assms(4) demo_resolved_any [OF assms(1)] b] assms(3)
    by (simp add: hasEnoughBalance_def)
qed

lemma demo_part_001_mixed:
  "sendSms_part_001 env_mixed (explicit_request 1 [1, 2]) db_demo =
     \<lparr>response = CompletedBatched 2 1 1 1 4 [sent_detail contact_a]
                   [failed_detail contact_b ''Unknown error''],
      db_after = db_demo\<lparr>balances_tbl := [(1, 4), (2, 1)],
                         history_tbl := [sent_history env_mixed 1 message_hi 1]\<rparr>,
      events = [GatewayCall ''255700000001'' message_hi,
       GatewayCall ''255700000002'' message_hi, Settled 1, Settled 0],
      committed = [BalanceWrite 1 4, HistoryWrite (sent_history env_mixed 1 message_hi 1)]\<rparr>"
proof -
  have r: "reads_ok env_mixed" by (simp add: reads_ok_def env_mixed_def)
  have "sendSms_part_001 env_mixed (explicit_request 1 [1, 2]) db_demo =
          dispatch_part_001 env_mixed (explicit_request 1 [1, 2]) message_hi 5
            [contact_a, contact_b] db_demo"
    by (rule demo_part_001_path [OF _ _ _ r]) (simp_all add: db_demo_def)
  also have "\<dots> = \<lparr>response = CompletedBatched 2 1 1 1 4 [sent_detail contact_a]
                   [failed_detail contact_b ''Unknown error''],
      db_after = db_demo\<lparr>balances_tbl := [(1, 4), (2, 1)],
                         history_tbl := [sent_history env_mixed 1 message_hi 1]\<rparr>,
      events = [GatewayCall ''255700000001'' message_hi,
       GatewayCall ''255700000002'' message_hi, Settled 1, Settled 0],
      committed = [BalanceWrite 1 4, HistoryWrite (sent_history env_mixed 1 message_hi 1)]\<rparr>"
    by (simp add: dispatch_part_001_eq demo_loop_mixed Let_def)
       (simp add: env_mixed_def db_demo_def explicit_request_def commit_def)
  finally show ?thesis .
qed

lemma demo_part_001_second:
  "response (sendSms_part_001 env_ok (explicit_request 1 [1, 2])
      (db_demo\<lparr>balances_tbl := [(1, 4), (2, 1)],
               history_tbl := [sent_history env_mixed 1 message_hi 1]\<rparr>)) =
     CompletedBatched 2 2 0 2 2 [sent_detail contact_a, sent_detail contact_b] []"
proof -
  let ?d = "db_demo\<lparr>balances_tbl := [(1, 4), (2, 1)],
               history_tbl := [sent_history env_mixed 1 message_hi 1]\<rparr>"
  have r: "reads_ok env_ok" by (simp add: reads_ok_def env_ok_def)
  have "sendSms_part_001 env_ok (explicit_request 1 [1, 2]) ?d =
          dispatch_part_001 env_ok (explicit_request 1 [1, 2]) message_hi 4 [contact_a, contact_b] ?d"
    by (rule demo_part_001_path [OF _ _ _ r]) (simp_all add: db_demo_def)
  then show ?thesis
    by (simp add: dispatch_part_001_eq demo_loop_env_ok Let_def) (simp add: env_ok_def)
qed

lemma demo_sequence_sent:
  "snd (run_sequence_part_001 1
          [(env_mixed, explicit_request 1 [1, 2]), (env_ok, explicit_request 1 [1, 2])]
          db_demo) = 3"
  unfolding run_sequence_part_001.simps Let_def demo_part_001_mixed result.select_convs
    demo_part_001_second
  by (simp add: explicit_request_def)

theorem debit_is_sent_count_part_001_witness:
  "map_of (balances_tbl db_demo) 1 = Some 5 \<and>
   snd (run_sequence_part_001 1
          [(env_mixed, explicit_request 1 [1, 2]), (env_ok, explicit_request 1 [1, 2])]
          db_demo) = 3 \<and>
   map_of (balances_tbl (fst (run_sequence_part_001 1
          [(env_mixed, explicit_request 1 [1, 2]), (env_ok, explicit_request 1 [1, 2])]
          db_demo))) 1 = Some 2 \<and>
   response (sendSms_part_001 env_mixed (explicit_request 1 [1, 2]) db_demo) =
     CompletedBatched 2 1 1 1 4 [sent_detail contact_a]
       [failed_detail contact_b ''Unknown error''] \<and>
   map_of (balances_tbl (db_after (sendSms_part_001 env_mixed (explicit_request 1 [1, 2]) db_demo)))
     1 = Some 4 \<and>
   map_of (balances_tbl (db_after (sendSms_controller env_mixed (explicit_request 1 [1, 2]) db_demo)))
     1 = Some 3"
proof -
  have b: "map_of (balances_tbl db_demo) 1 = Some 5" by (simp add: db_demo_def)
  have r: "response (sendSms_part_001 env_mixed (explicit_request 1 [1, 2]) db_demo) =
     CompletedBatched 2 1 1 1 4 [sent_detail contact_a]
       [failed_detail contact_b ''Unknown error'']"
    unfolding demo_part_001_mixed by simp
  have c: "req_clientId (explicit_request 1 [1, 2]) = 1" by (simp add: explicit_request_def)
  note t = debit_is_sent_count_part_001 [OF b,
            of "[(env_mixed, explicit_request 1 [1, 2]), (env_ok, explicit_request 1 [1, 2])]"
               env_mixed "explicit_request 1 [1, 2]" "message_hi" "[contact_a, contact_b]" 5
               "[''255700000001'', ''255700000002'']"]
  have s: "map_of (balances_tbl (fst (run_sequence_part_001 1
          [(env_mixed, explicit_request 1 [1, 2]), (env_ok, explicit_request 1 [1, 2])]
          db_demo))) 1 = Some 2"
    using conjunct1 [OF t] unfolding demo_sequence_sent by simp
  have a: "map_of (balances_tbl (db_after (sendSms_part_001 env_mixed (explicit_request 1 [1, 2])
             db_demo))) 1 = Some 4"
    using conjunct1 [OF conjunct2 [OF t]] unfolding r c sentCount_of.simps by simp
  have h: "request_ok (explicit_request 1 [1, 2]) message_hi \<and> reads_ok env_mixed \<and>
           writes_ok env_mixed \<and>
           resolved_recipients (explicit_request 1 [1, 2]) db_demo = Some [contact_a, contact_b] \<and>
           map_of (balances_tbl db_demo) (req_clientId (explicit_request 1 [1, 2])) = Some 5 \<and>
           int (length [contact_a, contact_b]) \<le> 5 \<and>
           prefixAll env_mixed [contact_a, contact_b] = Inr [''255700000001'', ''255700000002'']"
    using demo_request_ok demo_resolved demo_balance demo_prefixAll [of env_mixed]
    by (simp add: reads_ok_def writes_ok_def env_mixed_def)
  have k: "map_of (balances_tbl (db_after (sendSms_controller env_mixed
             (explicit_request 1 [1, 2]) db_demo))) 1 = Some 3"
    using conjunct2 [OF conjunct2 [OF conjunct2 [OF t]]] h unfolding c by simp
  from b demo_sequence_sent s r a k show ?thesis by blast
qed

section \<open>Where the revisions differ\<close>

lemma demo_controller_down:
  "sendSms_controller env_down (explicit_request 1 [1, 2]) db_demo =
     \<lparr>response = CompletedBulk 2 ''failed'' (ErrorObject ''timeout'') 3,
      db_after = db_demo\<lparr>balances_tbl := [(1, 3), (2, 1)],
                         history_tbl := [failed_history env_down 1 message_hi 2]\<rparr>,
      events = [GatewayCall ''255700000001,255700000002'' message_hi, Settled 0],
      committed = [BalanceWrite 1 3, HistoryWrite (failed_history env_down 1 message_hi 2)]\<rparr>"
proof -
  have r: "reads_ok env_down" by (simp add: reads_ok_def env_down_def)
  have w: "writes_ok env_down" by (simp add: writes_ok_def env_down_def)
  have fb: "faults env_down FindBalance = None" by (simp add: env_down_def)
  have p: "prefixAll env_down [contact_a, contact_b] = Inr [''255700000001'', ''255700000002'']"
    by (rule demo_prefixAll) (simp add: env_down_def)
  have l: "int (length [contact_a, contact_b]) \<le> 5" by simp
  have "sendSms_controller env_down (explicit_request 1 [1, 2]) db_demo =
          dispatch_controller env_down (explicit_request 1 [1, 2]) message_hi [contact_a, contact_b] db_demo"
    by (rule controller_path [OF demo_request_ok r demo_resolved])
  also note dispatch_controller_ok [OF fb w demo_balance l p, where msg = "message_hi"]
  finally show ?thesis
    by (simp add: explicit_request_def commit_def sendSMS_def failed_history_def
          env_down_def db_demo_def)
qed

text \<open>
  Against C1 as stated: in \<open>smsController.js\<close> the one gateway call throws (no
  recipient is confirmed sent), the dispatch is committed all the same, and the balance
  goes from 5 to 3: the debit is the number of recipients attempted.
\<close>

theorem single_call_debits_unsent_counterexample:
  "gateway env_down 0 ''255700000001,255700000002'' message_hi = TransportError ''timeout'' \<and>
   response (sendSms_controller env_down (explicit_request 1 [1, 2]) db_demo) =
     CompletedBulk 2 ''failed'' (ErrorObject ''timeout'') 3 \<and>
   map_of (balances_tbl db_demo) 1 = Some 5 \<and>
   map_of (balances_tbl (db_after (sendSms_controller env_down (explicit_request 1 [1, 2]) db_demo)))
     1 = Some 3"
  unfolding demo_controller_down by (simp add: env_down_def db_demo_def)

lemma demo_part_001_down:
  "sendSms_part_001 env_down (explicit_request 1 [1, 2]) db_demo =
     \<lparr>response = CompletedBatched 2 0 2 0 5 []
                   [failed_detail contact_a ''Unknown error'',
                    failed_detail contact_b ''Unknown error''],
      db_after = db_demo,
      events = [GatewayCall ''255700000001'' message_hi,
       GatewayCall ''255700000002'' message_hi, Settled 0, Settled 1],
      committed = []\<rparr>"
proof -
  have r: "reads_ok env_down" by (simp add: reads_ok_def env_down_def)
  have "sendSms_part_001 env_down (explicit_request 1 [1, 2]) db_demo =
          dispatch_part_001 env_down (explicit_request 1 [1, 2]) message_hi 5
            [contact_a, contact_b] db_demo"
    by (rule demo_part_001_path [OF _ _ _ r]) (simp_all add: db_demo_def)
  also have "\<dots> = \<lparr>response = CompletedBatched 2 0 2 0 5 []
                   [failed_detail contact_a ''Unknown error'',
                    failed_detail contact_b ''Unknown error''],
      db_after = db_demo,
      events = [GatewayCall ''255700000001'' message_hi,
       GatewayCall ''255700000002'' message_hi, Settled 0, Settled 1],
      committed = []\<rparr>"
    by (simp add: dispatch_part_001_eq demo_loop_down Let_def) (simp add: env_down_def)
  finally show ?thesis .
qed

text \<open>
  Against C5 as stated: in \<open>part_001\<close> both sends fail, the dispatch completes with
  0 sent and 2 failed, and no history row is written: the history table is still empty
  and nothing was committed.
\<close>

theorem all_failed_no_history_counterexample:
  "response (sendSms_part_001 env_down (explicit_request 1 [1, 2]) db_demo) =
     CompletedBatched 2 0 2 0 5 []
       [failed_detail contact_a ''Unknown error'', failed_detail contact_b ''Unknown error''] \<and>
   history_tbl db_demo = [] \<and>
   history_tbl (db_after (sendSms_part_001 env_down (explicit_request 1 [1, 2]) db_demo)) = [] \<and>
   committed (sendSms_part_001 env_down (explicit_request 1 [1, 2]) db_demo) = []"
  unfolding demo_part_001_down by (simp add: db_demo_def)

lemma all_failed_sent_empty:
  assumes "\<forall>m \<in> set (outcome_spec env msg 0 contacts). \<not> is_sent m"
  shows "sentMessages (dispatchLoop env msg contacts 0 initial_state) = []"
proof -
  have "filter_mset is_sent (mset (outcome_spec env msg 0 contacts)) = {#}"
    using assms by simp
  then have "mset (sentMessages (dispatchLoop env msg contacts 0 initial_state)) = {#}"
    using dispatchLoop_outcome [of env msg contacts 0 initial_state]
    by (simp add: callCount_def initial_state_def)
  then show ?thesis by simp
qed

subsection \<open>Claim C5\<close>

text \<open>
  C5, as amended. In the batched revision (\<open>part_001\<close>), a dispatch in which the send
  to every recipient fails debits nothing and writes no history row (the guard
  \<open>successfulSends > 0\<close> skips both writes; the transaction commits empty): the
  storage is as before, and the response reports 0 sent, N failed and the unchanged
  balance.
\<close>

theorem all_failed_no_debit:
  assumes "request_ok req msg" and "reads_ok env" and "faults env Commit = None"
    and "resolved_recipients req d = Some contacts"
    and "map_of (balances_tbl d) (req_clientId req) = Some bal"
    and "int (length contacts) \<le> bal"
    and "\<forall>m \<in> set (outcome_spec env msg 0 contacts). \<not> is_sent m"
  shows "sendSms_part_001 env req d =
           \<lparr>response =
              CompletedBatched (length contacts) 0 (length contacts) 0 bal []
                (failedMessages (dispatchLoop env msg contacts 0 initial_state)),
            db_after = d,
            events = trace (dispatchLoop env msg contacts 0 initial_state),
            committed = []\<rparr>"
proof -
  let ?st = "dispatchLoop env msg contacts 0 initial_state"
  have s: "sentMessages ?st = []" by (rule all_failed_sent_empty [OF assms(7)])
  have f: "length (failedMessages ?st) = length contacts"
    using dispatchLoop_counts [of env msg contacts] s by simp
  have "sendSms_part_001 env req d = dispatch_part_001 env req msg bal contacts d"
    using part_001_path [OF assms(1,2,4,5)] assms(6) by (simp add: hasEnoughBalance_def)
  then show ?thesis
    by (simp add: dispatch_part_001_eq [OF assms(6)] s f assms(3) Let_def)
qed

lemma demo_outcome_down:
  "outcome_spec env_down message_hi 0 [contact_a, contact_b] =
     [failed_detail contact_a ''Unknown error'', failed_detail contact_b ''Unknown error'']"
  by (simp add: env_down_def sendSMS_def)

theorem all_failed_no_debit_witness:
  "sendSms_part_001 env_down (explicit_request 1 [1, 2]) db_demo =
     \<lparr>response = CompletedBatched 2 0 2 0 5 []
                   [failed_detail contact_a ''Unknown error'',
                    failed_detail contact_b ''Unknown error''],
      db_after = db_demo,
      events = [GatewayCall ''255700000001'' message_hi,
       GatewayCall ''255700000002'' message_hi, Settled 0, Settled 1],
      committed = []\<rparr>"
proof -
  have r: "reads_ok env_down" by (simp add: reads_ok_def env_down_def)
  have c: "faults env_down Commit = None" by (simp add: env_down_def)
  have l: "int (length [contact_a, contact_b]) \<le> 5" by simp
  have o: "\<forall>m \<in> set (outcome_spec env_down message_hi 0 [contact_a, contact_b]). \<not> is_sent m"
    unfolding demo_outcome_down by simp
  show ?thesis
    using all_failed_no_debit [OF demo_request_ok r c demo_resolved demo_balance l o]
    unfolding demo_loop_down by simp
qed

lemma demo_controller_mixed:
  "sendSms_controller env_mixed (explicit_request 1 [1, 2]) db_demo =
     \<lparr>response = CompletedBulk 2 ''failed'' (Number 200) 3,
      db_after = db_demo\<lparr>balances_tbl := [(1, 3), (2, 1)],
                         history_tbl := [failed_history env_mixed 1 message_hi 2]\<rparr>,
      events = [GatewayCall ''255700000001,255700000002'' message_hi, Settled 0],
      committed = [BalanceWrite 1 3, HistoryWrite (failed_history env_mixed 1 message_hi 2)]\<rparr>"
proof -
  have r: "reads_ok env_mixed" by (simp add: reads_ok_def env_mixed_def)
  have w: "writes_ok env_mixed" by (simp add: writes_ok_def env_mixed_def)
  have fb: "faults env_mixed FindBalance = None" by (simp add: env_mixed_def)
  have p: "prefixAll env_mixed [contact_a, contact_b] = Inr [''255700000001'', ''255700000002'']"
    by (rule demo_prefixAll) (simp add: env_mixed_def)
  have l: "int (length [contact_a, contact_b]) \<le> 5" by simp
  have "sendSms_controller env_mixed (explicit_request 1 [1, 2]) db_demo =
          dispatch_controller env_mixed (explicit_request 1 [1, 2]) message_hi [contact_a, contact_b] db_demo"
    by (rule controller_path [OF demo_request_ok r demo_resolved])
  also note dispatch_controller_ok [OF fb w demo_balance l p, where msg = "message_hi"]
  finally show ?thesis
    by (simp add: explicit_request_def commit_def sendSMS_def failed_history_def
          env_mixed_def db_demo_def)
qed

text \<open>
  Against C7 as stated: the same request, environment (the gateway refuses the second
  recipient when called for it alone) and storage. \<open>part_001\<close> debits 1 and records
  a row "sent" for 1 recipient; \<open>smsController.js\<close> debits 2 and records a row
  "failed" for 2 recipients; the results differ.
\<close>

theorem revisions_differ_counterexample:
  "response (sendSms_part_001 env_mixed (explicit_request 1 [1, 2]) db_demo) =
     CompletedBatched 2 1 1 1 4 [sent_detail contact_a]
       [failed_detail contact_b ''Unknown error''] \<and>
   response (sendSms_controller env_mixed (explicit_request 1 [1, 2]) db_demo) =
     CompletedBulk 2 ''failed'' (Number 200) 3 \<and>
   committed (sendSms_part_001 env_mixed (explicit_request 1 [1, 2]) db_demo) =
     [BalanceWrite 1 4,
      HistoryWrite \<lparr>hist_clientId = 1, hist_message = message_hi, recipientCount = 1, smsUsed = 1,
                    hist_status = ''sent'', createdAt = 7\<rparr>] \<and>
   committed (sendSms_controller env_mixed (explicit_request 1 [1, 2]) db_demo) =
     [BalanceWrite 1 3,
      HistoryWrite \<lparr>hist_clientId = 1, hist_message = message_hi, recipientCount = 2, smsUsed = 2,
                    hist_status = ''failed'', createdAt = 7\<rparr>] \<and>
   sendSms_part_001 env_mixed (explicit_request 1 [1, 2]) db_demo \<noteq>
     sendSms_controller env_mixed (explicit_request 1 [1, 2]) db_demo"
  unfolding demo_part_001_mixed demo_controller_mixed
  by (simp add: sent_history_def failed_history_def env_mixed_def)

subsection \<open>Claim C7\<close>

text \<open>
  C7, as amended. The two single-call revisions (\<open>smsController.js\<close> and
  \<open>part_002\<close>) are functionally equivalent: for every request, environment and
  storage they give the same result, commit the same writes and leave the same storage.
  The batched revision of \<open>part_001\<close> is not equivalent to them (counterexample
  above).
\<close>

theorem single_call_revisions_equal:
  "sendSms_part_002 env req d = sendSms_controller env req d"
  by (simp add: sendSms_part_002_eq)

end
